theory Spec2Isabelle
  imports Main "HOL-Library.Multiset"
begin

section \<open>Data model of the side panel\<close>

text \<open>
  Modelled from the spec: the NO_GROUP sentinel, "the reserved group-id value meaning not
  grouped". \<^verbatim>\<open>sidepanel.js\<close> binds \<^verbatim>\<open>NoGroup\<close> to the host's constant
  \<^verbatim>\<open>chrome.tabGroups.TAB_GROUP_ID_NONE\<close>, which is not part of the repository; the host
  documents its value as -1. No general statement below depends on the value.
\<close>

definition NoGroup :: int where
  "NoGroup = - 1"

text \<open>
  A tab as the host reports it (\<^verbatim>\<open>chrome.tabs.Tab\<close>), with the fields the side panel reads
  for positioning, grouping and closing. The host's \<^verbatim>\<open>id\<close> is \<open>tab_id\<close> here, \<^verbatim>\<open>index\<close> is the
  zero-based position in the window.
\<close>

record tab =
  tab_id :: int
  windowId :: int
  index :: nat
  groupId :: int
  pinned :: bool
  active :: bool

text \<open>
  A rendered tab (\<^verbatim>\<open>Tabs.createTab\<close>): the element \<^verbatim>\<open>div#tab-<id>.tab-item\<close>, its
  \<^verbatim>\<open>dataset.group\<close> tag and the classes that the handlers switch.
\<close>

record tab_el =
  el_id :: int
  el_group :: int
  el_active :: bool
  el_pin :: bool
  el_dragging :: bool
  el_drop_zone :: bool
  el_drag_over :: bool

text \<open>
  A tab group as the host reports it (\<^verbatim>\<open>chrome.tabGroups.TabGroup\<close>). The host's \<^verbatim>\<open>id\<close>
  and \<^verbatim>\<open>windowId\<close> are \<open>group_id\<close> and \<open>group_windowId\<close> here.
\<close>

record group =
  group_id :: int
  group_windowId :: int
  title :: string
  color :: string
  collapsed :: bool

text \<open>
  A rendered group (\<^verbatim>\<open>Groups.createGroup\<close>): the container \<^verbatim>\<open>div#group-<id>.group-item\<close>
  with its colour class, its \<^verbatim>\<open>collapse\<close> class, the \<^verbatim>\<open>dataset.collapse\<close> mark that a
  group drag leaves on it, and the classes of its header \<^verbatim>\<open>.group-header-outer\<close>.
  The children of its \<^verbatim>\<open>.group-body\<close> are kept beside it in the node.
\<close>

record group_el =
  gel_id :: int
  gel_color :: string
  gel_collapse :: bool
  gel_mark :: bool
  hdr_dragging :: bool
  hdr_collapse :: bool
  hdr_drop_zone :: bool
  hdr_drag_over :: bool

text \<open>
  A child of the main list: a tab element, a group element with its body, or the element
  \<^verbatim>\<open>DnD.fakeBottom\<close> (\<^verbatim>\<open>div.drop-fake-bottom\<close>), which sits wherever the code has put it.
\<close>

datatype node = TabNode tab_el | GroupNode group_el "tab_el list" | FakeBottom

text \<open>
  The mutable state of the side panel: the children of \<^verbatim>\<open>Tabs.getMainList()\<close> in order,
  the globals \<^verbatim>\<open>WindowId\<close> and \<^verbatim>\<open>DnD.dragging\<close>, the element \<^verbatim>\<open>DnD.fakeBottom\<close> (whether it
  was created, whether it carries \<^verbatim>\<open>drag-over\<close>; it is attached when it is among the
  children of the main list), the map \<^verbatim>\<open>Groups.cache\<close>, and the timeout that
  \<^verbatim>\<open>Tabs.delayTimeoutId\<close> refers to, as the time in milliseconds at which it is due
  (\<open>None\<close> when it was never set, was cleared or has fired). \<open>clock\<close> is the current time.
\<close>

record panel =
  mainList :: "node list"
  WindowId :: "int option"
  dragging :: bool
  fake_made :: bool
  fake_drag_over :: bool
  cache :: "int \<rightharpoonup> group"
  timer :: "nat option"
  clock :: nat

text \<open>
  What the host answers when asked: \<^verbatim>\<open>chrome.windows.getCurrent({ populate: true })\<close>
  (the window's id and its tabs in order) and \<^verbatim>\<open>chrome.tabGroups.get\<close> (\<open>None\<close> when the
  promise is rejected or resolves to nothing).
\<close>

record host =
  current_id :: int
  current_tabs :: "tab list"
  tabGroups_get :: "int \<Rightarrow> group option"

section \<open>Rendering (class Tabs, class Groups)\<close>

definition createTab :: "tab \<Rightarrow> tab_el" where
  "createTab tabInfo =
     \<lparr>el_id = tab_id tabInfo, el_group = groupId tabInfo, el_active = active tabInfo,
      el_pin = pinned tabInfo, el_dragging = False, el_drop_zone = False,
      el_drag_over = False\<rparr>"

definition createGroup :: "group \<Rightarrow> group_el" where
  "createGroup g =
     \<lparr>gel_id = group_id g, gel_color = color g, gel_collapse = collapsed g, gel_mark = False,
      hdr_dragging = False, hdr_collapse = False, hdr_drop_zone = False,
      hdr_drag_over = False\<rparr>"

text \<open>\<^verbatim>\<open>querySelectorAll(".tab-item")\<close>: the tab elements in document order.\<close>

fun tabs_of :: "node \<Rightarrow> tab_el list" where
  "tabs_of (TabNode t) = [t]"
| "tabs_of (GroupNode g body) = body"
| "tabs_of FakeBottom = []"

definition flat :: "node list \<Rightarrow> tab_el list" where
  "flat ns = concat (map tabs_of ns)"

fun is_group :: "node \<Rightarrow> bool" where
  "is_group (TabNode t) = False"
| "is_group (GroupNode g body) = True"
| "is_group FakeBottom = False"

fun is_fake :: "node \<Rightarrow> bool" where
  "is_fake (TabNode t) = False"
| "is_fake (GroupNode g body) = False"
| "is_fake FakeBottom = True"

text \<open>Is the fake bottom a child of the main list.\<close>

definition fake_attached :: "panel \<Rightarrow> bool" where
  "fake_attached s = list_ex is_fake (mainList s)"

text \<open>
  \<^verbatim>\<open>Groups.get\<close>: the cached group, or the host's answer, cached when there is one.
  Returns the result and the cache.
\<close>

definition Groups_get ::
  "(int \<Rightarrow> group option) \<Rightarrow> (int \<rightharpoonup> group) \<Rightarrow> int \<Rightarrow> group option \<times> (int \<rightharpoonup> group)" where
  "Groups_get fetch c gid =
     (case c gid of
        Some g \<Rightarrow> (Some g, c)
      | None \<Rightarrow>
          (case fetch gid of
             Some g \<Rightarrow> (Some g, c(group_id g \<mapsto> g))
           | None \<Rightarrow> (None, c)))"

text \<open>
  \<^verbatim>\<open>Tabs.delayRebuild\<close>: \<^verbatim>\<open>clearTimeout\<close> drops the pending timeout, \<^verbatim>\<open>setTimeout(Tabs.build, 400)\<close>
  sets one due 400 ms from now.
\<close>

definition delayRebuild :: "panel \<Rightarrow> panel" where
  "delayRebuild s = s\<lparr>timer := Some (clock s + 400)\<rparr>"

text \<open>
  \<^verbatim>\<open>currentGroupElement.appendChild(tabElement)\<close> in \<^verbatim>\<open>Tabs.build\<close>: \<^verbatim>\<open>currentGroupElement\<close> is
  the body of the group element that was appended to the container last.
\<close>

fun appendChild_current :: "tab_el \<Rightarrow> node list \<Rightarrow> node list" where
  "appendChild_current e [] = []"
| "appendChild_current e (n # ns) =
     (if list_ex is_group ns then n # appendChild_current e ns
      else (case n of
              GroupNode g body \<Rightarrow> GroupNode g (body @ [e]) # ns
            | TabNode t \<Rightarrow> TabNode t # ns
            | FakeBottom \<Rightarrow> FakeBottom # ns))"

text \<open>
  The loop of \<^verbatim>\<open>Tabs.build\<close> over \<^verbatim>\<open>currentWindow.tabs\<close>, with the container built so far,
  \<^verbatim>\<open>lastGroupId\<close> (\<open>None\<close> for null) and the cache. The container is \<open>None\<close> when the loop
  left through \<^verbatim>\<open>Tabs.delayRebuild(); return;\<close>.
\<close>

fun build_loop ::
  "(int \<Rightarrow> group option) \<Rightarrow> tab list \<Rightarrow> node list \<Rightarrow> int option \<Rightarrow> (int \<rightharpoonup> group) \<Rightarrow>
   node list option \<times> (int \<rightharpoonup> group)" where
  "build_loop fetch [] container lastGroupId c = (Some container, c)"
| "build_loop fetch (t # ts) container lastGroupId c =
     (if groupId t \<noteq> NoGroup then
        (if lastGroupId \<noteq> Some (groupId t) then
           (case Groups_get fetch c (groupId t) of
              (Some groupInfo, c') \<Rightarrow>
                build_loop fetch ts
                  (appendChild_current (createTab t)
                     (container @ [GroupNode (createGroup groupInfo) []]))
                  (Some (groupId t)) c'
            | (None, c') \<Rightarrow> (None, c'))
         else build_loop fetch ts (appendChild_current (createTab t) container) lastGroupId c)
      else build_loop fetch ts (container @ [TabNode (createTab t)]) lastGroupId c)"

text \<open>
  \<^verbatim>\<open>Tabs.build\<close>. Nothing happens while \<^verbatim>\<open>DnD.dragging\<close> is set. Otherwise \<^verbatim>\<open>WindowId\<close> is
  assigned, the loop runs, and either the new container replaces the main list (a fake
  bottom that is a child of the old list goes with it) or the rebuild is delayed.
\<close>

definition build :: "host \<Rightarrow> panel \<Rightarrow> panel" where
  "build h s =
     (if dragging s then s
      else
        (case build_loop (tabGroups_get h) (current_tabs h) [] None (cache s) of
           (Some container, c') \<Rightarrow>
             s\<lparr>WindowId := Some (current_id h), cache := c', mainList := container\<rparr>
         | (None, c') \<Rightarrow> delayRebuild (s\<lparr>WindowId := Some (current_id h), cache := c'\<rparr>)))"

section \<open>Incremental patches (class Tabs, class Groups)\<close>

text \<open>\<^verbatim>\<open>allTabElements[i]\<close>: the element, or \<open>None\<close> for \<^verbatim>\<open>undefined\<close>.\<close>

definition item :: "'a list \<Rightarrow> nat \<Rightarrow> 'a option" where
  "item xs i = (if i < length xs then Some (xs ! i) else None)"

text \<open>\<^verbatim>\<open>document.getElementById\<close> for \<^verbatim>\<open>tab-<id>\<close> and \<^verbatim>\<open>group-<id>\<close>: is there such an element.\<close>

definition has_tab_el :: "int \<Rightarrow> node list \<Rightarrow> bool" where
  "has_tab_el tid ns = list_ex (\<lambda>e. el_id e = tid) (flat ns)"

fun is_group_with :: "int \<Rightarrow> node \<Rightarrow> bool" where
  "is_group_with gid (TabNode t) = False"
| "is_group_with gid (GroupNode g body) = (gel_id g = gid)"
| "is_group_with gid FakeBottom = False"

definition has_group_el :: "int \<Rightarrow> node list \<Rightarrow> bool" where
  "has_group_el gid ns = list_ex (is_group_with gid) ns"

text \<open>
  The two insertions of \<^verbatim>\<open>Tabs.insertTab\<close> for an ungrouped tab whose reference tab is the
  \<open>i\<close>-th tab element: \<^verbatim>\<open>mainList.insertBefore(newTabElement, referenceTab)\<close> when the
  reference is a child of the main list, \<^verbatim>\<open>mainList.insertBefore(newTabElement,
  referenceGroup)\<close> when it lies in a group. \<open>None\<close> when there is no \<open>i\<close>-th tab element.
\<close>

fun insertBeforeAt :: "nat \<Rightarrow> tab_el \<Rightarrow> node list \<Rightarrow> node list option" where
  "insertBeforeAt i e [] = None"
| "insertBeforeAt i e (TabNode t # ns) =
     (if i = 0 then Some (TabNode e # TabNode t # ns)
      else map_option ((#) (TabNode t)) (insertBeforeAt (i - 1) e ns))"
| "insertBeforeAt i e (GroupNode g body # ns) =
     (if i < length body then Some (TabNode e # GroupNode g body # ns)
      else map_option ((#) (GroupNode g body)) (insertBeforeAt (i - length body) e ns))"
| "insertBeforeAt i e (FakeBottom # ns) = map_option ((#) FakeBottom) (insertBeforeAt i e ns)"

text \<open>\<^verbatim>\<open>previousTab.after(newTabElement)\<close>, \<^verbatim>\<open>previousTab\<close> being the \<open>i\<close>-th tab element.\<close>

fun insertAfterAt :: "nat \<Rightarrow> tab_el \<Rightarrow> node list \<Rightarrow> node list option" where
  "insertAfterAt i e [] = None"
| "insertAfterAt i e (TabNode t # ns) =
     (if i = 0 then Some (TabNode t # TabNode e # ns)
      else map_option ((#) (TabNode t)) (insertAfterAt (i - 1) e ns))"
| "insertAfterAt i e (GroupNode g body # ns) =
     (if i < length body then Some (GroupNode g (take (Suc i) body @ e # drop (Suc i) body) # ns)
      else map_option ((#) (GroupNode g body)) (insertAfterAt (i - length body) e ns))"
| "insertAfterAt i e (FakeBottom # ns) = map_option ((#) FakeBottom) (insertAfterAt i e ns)"

text \<open>
  \<^verbatim>\<open>Tabs.insertTab\<close>. \<^verbatim>\<open>allTabElements[tabInfo.index - 1]\<close> is \<^verbatim>\<open>undefined\<close> at index 0.
  Every path that does not return after an insertion ends in \<^verbatim>\<open>Tabs.delayRebuild()\<close>.
\<close>

definition insertTab :: "tab \<Rightarrow> panel \<Rightarrow> panel" where
  "insertTab tabInfo s =
     (let allTabElements = flat (mainList s) in
      if groupId tabInfo = NoGroup then
        (if index tabInfo = length allTabElements
         then s\<lparr>mainList := mainList s @ [TabNode (createTab tabInfo)]\<rparr>
         else if index tabInfo < length allTabElements then
           (case insertBeforeAt (index tabInfo) (createTab tabInfo) (mainList s) of
              Some ml \<Rightarrow> s\<lparr>mainList := ml\<rparr>
            | None \<Rightarrow> delayRebuild s)
         else delayRebuild s)
      else if has_group_el (groupId tabInfo) (mainList s) then
        (case (if index tabInfo = 0 then None else item allTabElements (index tabInfo - 1)) of
           Some previousTab \<Rightarrow>
             (if el_group previousTab = groupId tabInfo then
                (case insertAfterAt (index tabInfo - 1) (createTab tabInfo) (mainList s) of
                   Some ml \<Rightarrow> s\<lparr>mainList := ml\<rparr>
                 | None \<Rightarrow> delayRebuild s)
              else delayRebuild s)
         | None \<Rightarrow> delayRebuild s)
      else delayRebuild s)"

definition onCreated :: "tab \<Rightarrow> panel \<Rightarrow> panel" where
  "onCreated t s =
     (if Some (windowId t) = WindowId s then
        (if \<not> has_tab_el (tab_id t) (mainList s) then insertTab t s else s)
      else s)"

text \<open>Apply \<open>f\<close> to the first element with the id, as code that holds \<^verbatim>\<open>getElementById\<close>'s result does.\<close>

fun update_first :: "int \<Rightarrow> (tab_el \<Rightarrow> tab_el) \<Rightarrow> tab_el list \<Rightarrow> tab_el list" where
  "update_first tid f [] = []"
| "update_first tid f (e # es) = (if el_id e = tid then f e # es else e # update_first tid f es)"

fun update_first_tab :: "int \<Rightarrow> (tab_el \<Rightarrow> tab_el) \<Rightarrow> node list \<Rightarrow> node list" where
  "update_first_tab tid f [] = []"
| "update_first_tab tid f (TabNode t # ns) =
     (if el_id t = tid then TabNode (f t) # ns else TabNode t # update_first_tab tid f ns)"
| "update_first_tab tid f (GroupNode g body # ns) =
     (if list_ex (\<lambda>e. el_id e = tid) body then GroupNode g (update_first tid f body) # ns
      else GroupNode g body # update_first_tab tid f ns)"
| "update_first_tab tid f (FakeBottom # ns) = FakeBottom # update_first_tab tid f ns"

text \<open>Apply \<open>f\<close> to every tab element, and \<open>f\<close> to every group element.\<close>

fun map_tab_els :: "(tab_el \<Rightarrow> tab_el) \<Rightarrow> node \<Rightarrow> node" where
  "map_tab_els f (TabNode t) = TabNode (f t)"
| "map_tab_els f (GroupNode g body) = GroupNode g (map f body)"
| "map_tab_els f FakeBottom = FakeBottom"

fun map_group_els :: "(group_el \<Rightarrow> group_el) \<Rightarrow> node \<Rightarrow> node" where
  "map_group_els f (TabNode t) = TabNode t"
| "map_group_els f (GroupNode g body) = GroupNode (f g) body"
| "map_group_els f FakeBottom = FakeBottom"

text \<open>
  \<^verbatim>\<open>Tabs.onActivated\<close>, for the event's \<^verbatim>\<open>windowId\<close> and \<^verbatim>\<open>tabId\<close>: every \<^verbatim>\<open>tab-active\<close> is
  removed, then the element of the tab, if there is one, gets the class.
\<close>

definition onActivated :: "int \<Rightarrow> int \<Rightarrow> panel \<Rightarrow> panel" where
  "onActivated win tabId s =
     (if Some win = WindowId s then
        (let cleared = map (map_tab_els (\<lambda>e. e\<lparr>el_active := False\<rparr>)) (mainList s) in
         if has_tab_el tabId cleared
         then s\<lparr>mainList := update_first_tab tabId (\<lambda>e. e\<lparr>el_active := True\<rparr>) cleared\<rparr>
         else s\<lparr>mainList := cleared\<rparr>)
      else s)"

text \<open>
  The fields of \<^verbatim>\<open>changeInfo\<close> that change the modelled part of a tab element; \<open>None\<close> is
  \<^verbatim>\<open>undefined\<close>. Title, favicon and audio indicator are not part of \<open>tab_el\<close>.
\<close>

record changeInfo =
  ci_pinned :: "bool option"
  ci_groupId :: "int option"

text \<open>\<^verbatim>\<open>Tabs.updateGroup\<close>: retag the element and delay a rebuild.\<close>

definition updateGroup :: "int \<Rightarrow> int \<Rightarrow> panel \<Rightarrow> panel" where
  "updateGroup tabId newGroupId s =
     delayRebuild
       (s\<lparr>mainList := update_first_tab tabId (\<lambda>e. e\<lparr>el_group := newGroupId\<rparr>) (mainList s)\<rparr>)"

definition onUpdated :: "int \<Rightarrow> changeInfo \<Rightarrow> tab \<Rightarrow> panel \<Rightarrow> panel" where
  "onUpdated tabId ci t s =
     (if Some (windowId t) \<noteq> WindowId s then s
      else if \<not> has_tab_el tabId (mainList s) then delayRebuild s
      else
        (let s1 = (case ci_pinned ci of
                     Some p \<Rightarrow>
                       s\<lparr>mainList :=
                           update_first_tab tabId (\<lambda>e. e\<lparr>el_pin := pinned t\<rparr>) (mainList s)\<rparr>
                   | None \<Rightarrow> s)
         in (case ci_groupId ci of
               Some g \<Rightarrow> updateGroup tabId g s1
             | None \<Rightarrow> s1)))"

text \<open>
  \<^verbatim>\<open>groupElement.before(...groupElement.querySelectorAll(".tab-item")); groupElement.remove()\<close>
  for the first group element with the id.
\<close>

fun unwrap_group :: "int \<Rightarrow> node list \<Rightarrow> node list" where
  "unwrap_group gid [] = []"
| "unwrap_group gid (TabNode t # ns) = TabNode t # unwrap_group gid ns"
| "unwrap_group gid (GroupNode g body # ns) =
     (if gel_id g = gid then map TabNode body @ ns else GroupNode g body # unwrap_group gid ns)"
| "unwrap_group gid (FakeBottom # ns) = FakeBottom # unwrap_group gid ns"

definition Groups_onRemoved :: "group \<Rightarrow> panel \<Rightarrow> panel" where
  "Groups_onRemoved g s =
     (let s1 = s\<lparr>cache := (cache s)(group_id g := None)\<rparr> in
      if \<not> has_group_el (group_id g) (mainList s1) then s1
      else s1\<lparr>mainList := unwrap_group (group_id g) (mainList s1)\<rparr>)"

section \<open>The debounce timer and the event loop\<close>

text \<open>
  The host runs the pending timeout once its time has come: the clock is moved to the due
  time (or stays where it is, if that is later), the timeout is gone, and \<^verbatim>\<open>Tabs.build\<close>
  runs against the host's state at that time. \<open>run_to w t s\<close> lets time pass until \<open>t\<close> and
  returns the times at which \<^verbatim>\<open>Tabs.build\<close> was run by the timer, with the state at \<open>t\<close>.
  \<open>w\<close> gives the host's answers at each time.
\<close>

definition fire :: "(nat \<Rightarrow> host) \<Rightarrow> nat \<Rightarrow> panel \<Rightarrow> panel" where
  "fire w d s = build (w (max (clock s) d)) (s\<lparr>clock := max (clock s) d, timer := None\<rparr>)"

function run_to :: "(nat \<Rightarrow> host) \<Rightarrow> nat \<Rightarrow> panel \<Rightarrow> nat list \<times> panel" where
  "run_to w t s =
     (case timer s of
        None \<Rightarrow> ([], s\<lparr>clock := max (clock s) t\<rparr>)
      | Some d \<Rightarrow>
          if d \<le> t \<and> clock s \<le> t then
            (let (fs, s') = run_to w t (fire w d s) in (max (clock s) d # fs, s'))
          else ([], s\<lparr>clock := max (clock s) t\<rparr>))"
  by pat_completeness auto

termination run_to
proof (relation "measure (\<lambda>(w, t, s). case timer s of None \<Rightarrow> 0 | Some d \<Rightarrow> Suc t - d)")
  show "wf (measure (\<lambda>(w, t, s). case timer s of None \<Rightarrow> 0 | Some d \<Rightarrow> Suc t - d))"
    by simp
next
  fix w :: "nat \<Rightarrow> host" and t :: nat and s :: panel and d :: nat
  assume pending: "timer s = Some d" and due: "d \<le> t \<and> clock s \<le> t"
  have "timer (fire w d s) = None \<or> timer (fire w d s) = Some (max (clock s) d + 400)"
    by (simp add: fire_def build_def delayRebuild_def split: prod.splits option.splits)
  with pending due
  show "((w, t, fire w d s), (w, t, s))
          \<in> measure (\<lambda>(w, t, s). case timer s of None \<Rightarrow> 0 | Some d \<Rightarrow> Suc t - d)"
    by auto
qed

text \<open>
  A burst of rebuild requests: at each of the given times, after the time has passed,
  \<^verbatim>\<open>Tabs.delayRebuild\<close> is called. Returns the times at which the timer ran \<^verbatim>\<open>Tabs.build\<close>
  meanwhile, and the state after the last request.
\<close>

fun burst :: "(nat \<Rightarrow> host) \<Rightarrow> nat list \<Rightarrow> panel \<Rightarrow> nat list \<times> panel" where
  "burst w [] s = ([], s)"
| "burst w (t # ts) s =
     (let (fs, s1) = run_to w t s; (gs, s2) = burst w ts (delayRebuild s1) in (fs @ gs, s2))"

section \<open>Drag and drop (class DnD)\<close>

text \<open>
  A handler that ends in \<^verbatim>\<open>DnD.fakeBottom.classList...\<close> returns, or leaves through a
  TypeError when \<^verbatim>\<open>DnD.fakeBottom\<close> is still undefined; either way with the state reached.
\<close>

datatype 'a outcome = Returned 'a | Threw 'a

text \<open>
  \<^verbatim>\<open>DnD.insertFakeBottom\<close>: the element is created if need be, and
  \<^verbatim>\<open>appendChild\<close> makes it the last child of the main list, taking it from where it was.
  \<^verbatim>\<open>DnD.fakeBottom.classList.remove("drag-over"); DnD.fakeBottom.remove()\<close> takes it out.
\<close>

definition insertFakeBottom :: "panel \<Rightarrow> panel" where
  "insertFakeBottom s =
     (if \<not> fake_made s
      then s\<lparr>fake_made := True, fake_drag_over := False,
             mainList := filter (\<lambda>n. \<not> is_fake n) (mainList s) @ [FakeBottom]\<rparr>
      else s\<lparr>mainList := filter (\<lambda>n. \<not> is_fake n) (mainList s) @ [FakeBottom]\<rparr>)"

definition remove_fakeBottom :: "panel \<Rightarrow> panel outcome" where
  "remove_fakeBottom s =
     (if fake_made s
      then Returned (s\<lparr>fake_drag_over := False,
                       mainList := filter (\<lambda>n. \<not> is_fake n) (mainList s)\<rparr>)
      else Threw s)"

text \<open>Apply \<open>f\<close> to the first group element with the id (the header that received the event).\<close>

fun update_first_group :: "int \<Rightarrow> (group_el \<Rightarrow> group_el) \<Rightarrow> node list \<Rightarrow> node list" where
  "update_first_group gid f [] = []"
| "update_first_group gid f (TabNode t # ns) = TabNode t # update_first_group gid f ns"
| "update_first_group gid f (GroupNode g body # ns) =
     (if gel_id g = gid then GroupNode (f g) body # ns
      else GroupNode g body # update_first_group gid f ns)"
| "update_first_group gid f (FakeBottom # ns) = FakeBottom # update_first_group gid f ns"

text \<open>
  \<^verbatim>\<open>DnD.dragStart\<close> on the tab element with the id, and the animation frame it requests.
\<close>

definition dragStart :: "int \<Rightarrow> panel \<Rightarrow> panel" where
  "dragStart tid s =
     s\<lparr>dragging := True,
       mainList :=
         map (map_group_els (\<lambda>g. g\<lparr>hdr_drop_zone := True\<rparr>))
           (map (map_tab_els (\<lambda>e. e\<lparr>el_drop_zone := True\<rparr>))
              (update_first_tab tid (\<lambda>e. e\<lparr>el_dragging := True\<rparr>) (mainList s)))\<rparr>"

definition dragStart_frame :: "panel \<Rightarrow> panel" where
  "dragStart_frame s = insertFakeBottom s"

text \<open>
  \<^verbatim>\<open>DnD.groupDragStart\<close> on the header of the group with the id: the header gets
  \<^verbatim>\<open>dragging\<close> and \<^verbatim>\<open>collapse\<close>, every tab and header becomes a drop zone, every group
  element that has the class \<^verbatim>\<open>collapse\<close> gets \<^verbatim>\<open>dataset.collapse\<close>. The animation frame
  then collapses every group element and inserts the fake bottom.
\<close>

definition groupDragStart :: "int \<Rightarrow> panel \<Rightarrow> panel" where
  "groupDragStart gid s =
     s\<lparr>dragging := True,
       mainList :=
         map (map_group_els (\<lambda>g. if gel_collapse g then g\<lparr>gel_mark := True\<rparr> else g))
           (map (map_group_els (\<lambda>g. g\<lparr>hdr_drop_zone := True\<rparr>))
              (map (map_tab_els (\<lambda>e. e\<lparr>el_drop_zone := True\<rparr>))
                 (update_first_group gid (\<lambda>g. g\<lparr>hdr_dragging := True, hdr_collapse := True\<rparr>)
                    (mainList s))))\<rparr>"

definition groupDragStart_frame :: "panel \<Rightarrow> panel" where
  "groupDragStart_frame s =
     insertFakeBottom
       (s\<lparr>mainList := map (map_group_els (\<lambda>g. g\<lparr>gel_collapse := True\<rparr>)) (mainList s)\<rparr>)"

definition dragEnd :: "int \<Rightarrow> panel \<Rightarrow> panel outcome" where
  "dragEnd tid s =
     remove_fakeBottom
       (s\<lparr>dragging := False,
          mainList :=
            map (map_group_els (\<lambda>g. g\<lparr>hdr_drop_zone := False, hdr_drag_over := False\<rparr>))
              (map (map_tab_els (\<lambda>e. e\<lparr>el_drop_zone := False, el_drag_over := False\<rparr>))
                 (update_first_tab tid (\<lambda>e. e\<lparr>el_dragging := False\<rparr>) (mainList s)))\<rparr>)"

definition groupDragEnd :: "int \<Rightarrow> panel \<Rightarrow> panel outcome" where
  "groupDragEnd gid s =
     remove_fakeBottom
       (s\<lparr>dragging := False,
          mainList :=
            map (map_group_els
                   (\<lambda>g. if gel_mark g then g\<lparr>gel_mark := False\<rparr> else g\<lparr>gel_collapse := False\<rparr>))
              (map (map_group_els (\<lambda>g. g\<lparr>hdr_drop_zone := False, hdr_drag_over := False\<rparr>))
                 (map (map_tab_els (\<lambda>e. e\<lparr>el_drop_zone := False, el_drag_over := False\<rparr>))
                    (update_first_group gid
                       (\<lambda>g. g\<lparr>hdr_dragging := False, hdr_collapse := False\<rparr>) (mainList s))))\<rparr>)"

subsection \<open>Dropping\<close>

text \<open>
  What is dragged, as \<^verbatim>\<open>dataTransfer.getData("tab-id")\<close> names it: \<^verbatim>\<open>tab-<n>\<close> or \<^verbatim>\<open>group-<n>\<close>.
  What it is dropped on, after \<^verbatim>\<open>DnD.drop\<close> has replaced a group header by its group
  element: a tab element, a group element or the fake bottom.
\<close>

datatype dragged = DragTab int | DragGroup int

datatype target = OnTab int | OnGroup int | OnFake

text \<open>
  Where an element sits: it is the \<open>i\<close>-th child of the main list, or the \<open>j\<close>-th child of
  the body of the group that is the \<open>i\<close>-th child.
\<close>

datatype place = Root nat | Body nat nat

fun shift :: "place \<Rightarrow> place" where
  "shift (Root i) = Root (Suc i)"
| "shift (Body i j) = Body (Suc i) j"

fun first_index :: "('a \<Rightarrow> bool) \<Rightarrow> 'a list \<Rightarrow> nat option" where
  "first_index P [] = None"
| "first_index P (x # xs) = (if P x then Some 0 else map_option Suc (first_index P xs))"

text \<open>Elements are found by id, the first in document order, as \<^verbatim>\<open>getElementById\<close> finds them.\<close>

fun locate_tab :: "int \<Rightarrow> node list \<Rightarrow> place option" where
  "locate_tab tid [] = None"
| "locate_tab tid (TabNode t # ns) =
     (if el_id t = tid then Some (Root 0) else map_option shift (locate_tab tid ns))"
| "locate_tab tid (GroupNode g body # ns) =
     (case first_index (\<lambda>e. el_id e = tid) body of
        Some j \<Rightarrow> Some (Body 0 j)
      | None \<Rightarrow> map_option shift (locate_tab tid ns))"
| "locate_tab tid (FakeBottom # ns) = map_option shift (locate_tab tid ns)"

definition locate_group :: "int \<Rightarrow> node list \<Rightarrow> place option" where
  "locate_group gid ns = map_option Root (first_index (is_group_with gid) ns)"

definition locate :: "target \<Rightarrow> node list \<Rightarrow> place option" where
  "locate tg ns =
     (case tg of
        OnTab t \<Rightarrow> locate_tab t ns
      | OnGroup g \<Rightarrow> locate_group g ns
      | OnFake \<Rightarrow> map_option Root (first_index is_fake ns))"

text \<open>The body of the group that is the \<open>i\<close>-th child of the list.\<close>

definition body_at :: "nat \<Rightarrow> node list \<Rightarrow> tab_el list" where
  "body_at i ns = (if i < length ns then tabs_of (ns ! i) else [])"

text \<open>\<^verbatim>\<open>nextElementSibling\<close> of the element at a place.\<close>

definition next_sibling :: "place \<Rightarrow> node list \<Rightarrow> place option" where
  "next_sibling p ns =
     (case p of
        Root i \<Rightarrow> if Suc i < length ns then Some (Root (Suc i)) else None
      | Body i j \<Rightarrow> if Suc j < length (body_at i ns) then Some (Body i (Suc j)) else None)"

text \<open>
  \<^verbatim>\<open>Array.prototype.indexOf.call(allTabs, element)\<close> for the tab element at a place, and for
  \<^verbatim>\<open>groupElement.querySelector(".tab-item")\<close> of the group at a place: -1 for the null
  that an empty group gives.
\<close>

definition flat_index :: "place \<Rightarrow> node list \<Rightarrow> int" where
  "flat_index p ns =
     (case p of
        Root i \<Rightarrow> int (length (flat (take i ns)))
      | Body i j \<Rightarrow> int (length (flat (take i ns)) + j))"

definition first_tab_index :: "place \<Rightarrow> node list \<Rightarrow> int" where
  "first_tab_index p ns =
     (case p of
        Root i \<Rightarrow> if body_at i ns = [] then - 1 else int (length (flat (take i ns)))
      | Body i j \<Rightarrow> - 1)"

text \<open>
  What \<^verbatim>\<open>DnD.moveTab\<close> and \<^verbatim>\<open>DnD.moveGroup\<close> do to the outside, in order: the calls of
  \<^verbatim>\<open>chrome.tabs.move\<close>, \<^verbatim>\<open>chrome.tabs.ungroup\<close>, \<^verbatim>\<open>chrome.tabs.group\<close> (with the
  \<^verbatim>\<open>groupId\<close> option or without), \<^verbatim>\<open>chrome.tabGroups.move\<close> and \<^verbatim>\<open>chrome.tabGroups.update\<close>
  (collapsed, color, title), and the call of \<^verbatim>\<open>Tabs.build()\<close>.
\<close>

datatype action =
    TabsMove int int
  | TabsUngroup "int list"
  | TabsGroup "int option" "int list"
  | TabGroupsMove int int
  | TabGroupsUpdate int bool string string
  | Build

text \<open>
  The awaited calls of one \<^verbatim>\<open>try\<close> block: each is made in turn, and the first that the
  host rejects (\<open>fails\<close>) is the last one made.
\<close>

fun issue :: "(action \<Rightarrow> bool) \<Rightarrow> action list \<Rightarrow> action list" where
  "issue fails [] = []"
| "issue fails (a # as) = (if fails a then [a] else a # issue fails as)"

text \<open>Take the first tab element with the id out of the tree.\<close>

fun detach_in :: "int \<Rightarrow> tab_el list \<Rightarrow> (tab_el \<times> tab_el list) option" where
  "detach_in tid [] = None"
| "detach_in tid (e # es) =
     (if el_id e = tid then Some (e, es)
      else map_option (\<lambda>(x, r). (x, e # r)) (detach_in tid es))"

fun detach :: "int \<Rightarrow> node list \<Rightarrow> (tab_el \<times> node list) option" where
  "detach tid [] = None"
| "detach tid (TabNode t # ns) =
     (if el_id t = tid then Some (t, ns)
      else map_option (\<lambda>(x, r). (x, TabNode t # r)) (detach tid ns))"
| "detach tid (GroupNode g body # ns) =
     (case detach_in tid body of
        Some (x, body') \<Rightarrow> Some (x, GroupNode g body' # ns)
      | None \<Rightarrow> map_option (\<lambda>(x, r). (x, GroupNode g body # r)) (detach tid ns))"
| "detach tid (FakeBottom # ns) = map_option (\<lambda>(x, r). (x, FakeBottom # r)) (detach tid ns)"

text \<open>
  \<^verbatim>\<open>dropTarget.before(tabElement)\<close> for a tab element that was taken out of the list and a
  drop target at a place of what is left: the tab element takes that place, in the main
  list or in the group body, and the drop target becomes its next sibling.
\<close>

fun insert_at :: "place \<Rightarrow> tab_el \<Rightarrow> node list \<Rightarrow> node list" where
  "insert_at (Root i) e ns = take i ns @ TabNode e # drop i ns"
| "insert_at (Body i j) e ns =
     (if i < length ns then
        (case ns ! i of
           GroupNode g body \<Rightarrow> ns[i := GroupNode g (take j body @ e # drop j body)]
         | TabNode t \<Rightarrow> ns
         | FakeBottom \<Rightarrow> ns)
      else ns)"

text \<open>
  \<^verbatim>\<open>Groups.isInGroup(dropTarget)\<close> for a drop target at a place (its parent is a group body),
  \<^verbatim>\<open>parseInt(dropTarget.dataset.group)\<close> for it, and \<^verbatim>\<open>Groups.isAfterGroup(tabElement)\<close> for
  the tab element at a place of the list (its previous sibling is a group element; the
  fake bottom is none, and the first child has no previous sibling).
\<close>

definition isInGroup :: "place \<Rightarrow> bool" where
  "isInGroup q = (case q of Body i j \<Rightarrow> True | Root i \<Rightarrow> False)"

definition group_tag_at :: "place \<Rightarrow> node list \<Rightarrow> int option" where
  "group_tag_at q ns =
     (case q of
        Body i j \<Rightarrow> map_option el_group (item (body_at i ns) j)
      | Root i \<Rightarrow> None)"

definition isAfterGroup :: "place \<Rightarrow> node list \<Rightarrow> bool" where
  "isAfterGroup q ns =
     (case q of
        Root (Suc i) \<Rightarrow> i < length ns \<and> is_group (ns ! i)
      | _ \<Rightarrow> False)"

text \<open>
  \<^verbatim>\<open>DnD.moveTab\<close> for the tab element with id \<open>tid\<close> (the first, as \<^verbatim>\<open>DnD.drop\<close> finds it by
  \<^verbatim>\<open>getElementById\<close>) and a drop target other than that element. The code is called with
  two elements of the document; ids that name no such two elements stand for no call, and
  the result is \<open>None\<close>. Otherwise the result is the state after the optimistic move of the
  element, and what the function does to the outside. The tab element ends at the place
  \<open>q\<close> that the drop target had before; \<^verbatim>\<open>newIndex\<close> is its index among the tab elements
  after the move. \<^verbatim>\<open>targetGroupId\<close> stays \<^verbatim>\<open>undefined\<close> (\<open>None\<close>) unless the drop target lies
  in a group body; \<^verbatim>\<open>else if (targetGroupId)\<close> takes a number other than 0.
\<close>

definition moveTab ::
  "(action \<Rightarrow> bool) \<Rightarrow> int \<Rightarrow> target \<Rightarrow> panel \<Rightarrow> (panel \<times> action list) option" where
  "moveTab fails tid dropTarget s =
     (case detach tid (mainList s) of
        None \<Rightarrow> None
      | Some (tabElement, rest) \<Rightarrow>
          (case locate dropTarget rest of
             None \<Rightarrow> None
           | Some q \<Rightarrow>
               (let isDropTargetGroup = (case dropTarget of OnGroup g \<Rightarrow> True | _ \<Rightarrow> False);
                    ml = insert_at q tabElement rest;
                    inGroup = (\<not> isDropTargetGroup \<and> isInGroup q);
                    targetGroupId = (if inGroup then group_tag_at q rest else None);
                    shouldUngroup = (\<not> isDropTargetGroup \<and> \<not> inGroup \<and> isAfterGroup q ml);
                    newIndex = flat_index q ml
                in Some
                     (s\<lparr>mainList := ml\<rparr>,
                      issue fails
                        (TabsMove tid newIndex #
                         (if isDropTargetGroup \<or> shouldUngroup then [TabsUngroup [tid]]
                          else (case targetGroupId of
                                  Some g \<Rightarrow> if g \<noteq> 0 then [TabsGroup (Some g) [tid]] else []
                                | None \<Rightarrow> [])))
                      @ [Build]))))"

text \<open>
  \<^verbatim>\<open>DnD.moveGroup\<close> for the first group element with id \<open>gid\<close>. The indices are read before
  the element moves. \<^verbatim>\<open>dropTarget.before(groupElement)\<close> throws when the drop target is a
  tab of the dragged group itself, and then \<^verbatim>\<open>Tabs.build()\<close> is all that follows. The
  optimistic move of the group element itself is not modelled: no index and no call
  depends on it, and the function returns the cache (which \<^verbatim>\<open>Groups.get\<close> may fill) and
  what it does to the outside. \<open>newGroupId\<close> is what \<^verbatim>\<open>chrome.tabs.group\<close> resolves to.
  Reading \<^verbatim>\<open>groupInfo.collapsed\<close> of a null \<^verbatim>\<open>groupInfo\<close> throws before the update is called.
\<close>

definition moveGroup ::
  "(action \<Rightarrow> bool) \<Rightarrow> (int \<Rightarrow> group option) \<Rightarrow> int \<Rightarrow> int \<Rightarrow> target \<Rightarrow> panel \<Rightarrow>
   (int \<rightharpoonup> group) \<times> action list" where
  "moveGroup fails fetch newGroupId gid dropTarget s =
     (case locate_group gid (mainList s) of
        None \<Rightarrow> (cache s, [])
      | Some gp \<Rightarrow>
          (let tabsInGroup = (case gp of Root i \<Rightarrow> body_at i (mainList s) | _ \<Rightarrow> []);
               oldIndex = first_tab_index gp (mainList s);
               newIndex =
                 (case dropTarget of
                    OnGroup g' \<Rightarrow>
                      (case locate_group g' (mainList s) of
                         Some q \<Rightarrow> first_tab_index q (mainList s)
                       | None \<Rightarrow> - 1)
                  | OnTab t \<Rightarrow>
                      (case locate_tab t (mainList s) of
                         Some q \<Rightarrow> flat_index q (mainList s)
                       | None \<Rightarrow> - 1)
                  | OnFake \<Rightarrow> - 1);
               inside =
                 (case dropTarget of
                    OnTab t \<Rightarrow>
                      (case locate_tab t (mainList s) of
                         Some (Body i j) \<Rightarrow> gp = Root i
                       | _ \<Rightarrow> False)
                  | _ \<Rightarrow> False)
           in if inside then (cache s, [Build])
              else if newIndex = - 1 \<or> newIndex > oldIndex then
                (let tabIds = map el_id tabsInGroup;
                     targetIndex = (if newIndex = - 1 then newIndex else newIndex - 1);
                     (groupInfo, c') = Groups_get fetch (cache s) gid
                 in (c',
                     issue fails
                       (TabsUngroup tabIds # map (\<lambda>t. TabsMove t targetIndex) tabIds @
                        TabsGroup None tabIds #
                        (case groupInfo of
                           Some g \<Rightarrow> [TabGroupsUpdate newGroupId (collapsed g) (color g) (title g)]
                         | None \<Rightarrow> []))
                     @ [Build]))
              else if newIndex < oldIndex then
                (cache s, issue fails [TabGroupsMove gid newIndex] @ [Build])
              else (cache s, [Build])))"

text \<open>
  \<^verbatim>\<open>DnD.drop\<close> (named \<open>DnD_drop\<close>, since \<open>drop\<close> is the list function). Nothing happens
  when the dragged element is not in the document, when it is dropped on itself or on its
  next sibling. A drop event reaches elements of the document only, so a target that is
  not there stands for no event. Otherwise the tab or the group is moved; the dragged tab
  and the drop target are then two elements of the document, and \<open>moveTab\<close> has a result.
\<close>

datatype dropped =
    Rejected
  | TabDropped panel "action list"
  | GroupDropped "int \<rightharpoonup> group" "action list"

definition DnD_drop ::
  "(action \<Rightarrow> bool) \<Rightarrow> (int \<Rightarrow> group option) \<Rightarrow> int \<Rightarrow> dragged \<Rightarrow> target \<Rightarrow> panel \<Rightarrow> dropped" where
  "DnD_drop fails fetch newGroupId d dropTarget s =
     (case (case d of
              DragTab t \<Rightarrow> locate_tab t (mainList s)
            | DragGroup g \<Rightarrow> locate_group g (mainList s)) of
        None \<Rightarrow> Rejected
      | Some p \<Rightarrow>
          (case locate dropTarget (mainList s) of
             None \<Rightarrow> Rejected
           | Some q \<Rightarrow>
               if p = q \<or> next_sibling p (mainList s) = Some q then Rejected
               else (case d of
                       DragGroup g \<Rightarrow>
                         (case moveGroup fails fetch newGroupId g dropTarget s of
                            (c, as) \<Rightarrow> GroupDropped c as)
                     | DragTab t \<Rightarrow>
                         (case moveTab fails t dropTarget s of
                            Some (s1, as) \<Rightarrow> TabDropped s1 as
                          | None \<Rightarrow> Rejected))))"

section \<open>Bulk close (class ContextMenu)\<close>

text \<open>
  What a bulk-close handler ends with: nothing (an early \<^verbatim>\<open>return\<close>),
  \<^verbatim>\<open>chrome.tabs.remove(tabIds)\<close>, or \<^verbatim>\<open>CloseConfirm.show(tabIds)\<close>.
\<close>

datatype close_action = NoAction | RemoveTabs "int list" | ShowConfirm "int list"

definition showCloseConfirm :: "int list \<Rightarrow> close_action" where
  "showCloseConfirm tabIds =
     (if length tabIds > 10 then ShowConfirm tabIds else RemoveTabs tabIds)"

text \<open>
  \<^verbatim>\<open>ContextMenu.stepOne\<close>: the id of the element carrying \<^verbatim>\<open>context-focus\<close>, or null.
  The argument is the result of \<^verbatim>\<open>document.querySelector(".context-focus")\<close>.
\<close>

definition stepOne :: "tab_el option \<Rightarrow> int option" where
  "stepOne focusedElement = map_option el_id focusedElement"

text \<open>JavaScript's \<^verbatim>\<open>!tabId\<close> for a number or null: null and 0 are falsy.\<close>

definition falsy :: "int option \<Rightarrow> bool" where
  "falsy v = (case v of None \<Rightarrow> True | Some n \<Rightarrow> n = 0)"

text \<open>
  In each handler \<open>tabs\<close> is what \<^verbatim>\<open>chrome.tabs.query({ currentWindow: true })\<close> hands to
  the callback.
\<close>

definition closeOthers :: "tab list \<Rightarrow> tab_el option \<Rightarrow> close_action" where
  "closeOthers tabs focusedElement =
     (let tabId = stepOne focusedElement in
      if falsy tabId then NoAction
      else showCloseConfirm
             (map tab_id (filter (\<lambda>t. tab_id t \<noteq> the tabId \<and> \<not> pinned t) tabs)))"

definition closeLeft :: "tab list \<Rightarrow> tab_el option \<Rightarrow> close_action" where
  "closeLeft tabs focusedElement =
     (let tabId = stepOne focusedElement in
      if falsy tabId then NoAction
      else case find (\<lambda>t. tab_id t = the tabId) tabs of
             None \<Rightarrow> NoAction
           | Some selectedTab \<Rightarrow>
               showCloseConfirm
                 (map tab_id (filter (\<lambda>t. index t < index selectedTab \<and> \<not> pinned t) tabs)))"

definition closeRight :: "tab list \<Rightarrow> tab_el option \<Rightarrow> close_action" where
  "closeRight tabs focusedElement =
     (let tabId = stepOne focusedElement in
      if falsy tabId then NoAction
      else case find (\<lambda>t. tab_id t = the tabId) tabs of
             None \<Rightarrow> NoAction
           | Some selectedTab \<Rightarrow>
               showCloseConfirm
                 (map tab_id (filter (\<lambda>t. index t > index selectedTab \<and> \<not> pinned t) tabs)))"

definition closeGroupAbove :: "tab list \<Rightarrow> tab_el option \<Rightarrow> close_action" where
  "closeGroupAbove tabs focusedElement =
     (let tabId = map_option el_id focusedElement in
      if falsy tabId \<or> focusedElement = None then NoAction
      else let group = el_group (the focusedElement) in
        if group = NoGroup then NoAction
        else case find (\<lambda>t. tab_id t = the tabId) tabs of
               None \<Rightarrow> NoAction
             | Some selectedTab \<Rightarrow>
                 showCloseConfirm
                   (map tab_id
                      (filter (\<lambda>t. groupId t = group \<and> index t < index selectedTab \<and> \<not> pinned t)
                         tabs)))"

definition closeGroupBelow :: "tab list \<Rightarrow> tab_el option \<Rightarrow> close_action" where
  "closeGroupBelow tabs focusedElement =
     (let tabId = map_option el_id focusedElement in
      if falsy tabId \<or> focusedElement = None then NoAction
      else let group = el_group (the focusedElement) in
        if group = NoGroup then NoAction
        else case find (\<lambda>t. tab_id t = the tabId) tabs of
               None \<Rightarrow> NoAction
             | Some selectedTab \<Rightarrow>
                 showCloseConfirm
                   (map tab_id
                      (filter (\<lambda>t. groupId t = group \<and> index t > index selectedTab \<and> \<not> pinned t)
                         tabs)))"

text \<open>
  The specification's wording of a bulk close, for comparison with the handlers: the ids
  of the unpinned tabs of the live query that satisfy the predicate \<open>P\<close>, removed at once
  when there are at most 10 of them and handed to the confirmation dialog otherwise.
\<close>

definition spec_bulk_close :: "tab list \<Rightarrow> (tab \<Rightarrow> bool) \<Rightarrow> close_action \<Rightarrow> bool" where
  "spec_bulk_close tabs P r =
     (let ids = map tab_id (filter (\<lambda>t. P t \<and> \<not> pinned t) tabs) in
      (length ids \<le> 10 \<and> r = RemoveTabs ids) \<or> (10 < length ids \<and> r = ShowConfirm ids))"

section \<open>Notions used in the statements\<close>

text \<open>
  A burst: each request comes no earlier than the one before it and less than \<open>q\<close>
  milliseconds after it (\<open>prev\<close> is the time of the request before the list).
\<close>

fun spaced_within :: "nat \<Rightarrow> nat \<Rightarrow> nat list \<Rightarrow> bool" where
  "spaced_within q prev [] = True"
| "spaced_within q prev (t # ts) = (prev \<le> t \<and> t < prev + q \<and> spaced_within q t ts)"

text \<open>The state a handler leaves, however it ended.\<close>

fun state_of :: "'a outcome \<Rightarrow> 'a" where
  "state_of (Returned s) = s"
| "state_of (Threw s) = s"

text \<open>\<^verbatim>\<open>document.querySelectorAll(".group-item")\<close>: the group elements in document order.\<close>

fun groups_of :: "node list \<Rightarrow> group_el list" where
  "groups_of [] = []"
| "groups_of (TabNode t # ns) = groups_of ns"
| "groups_of (GroupNode g body # ns) = g # groups_of ns"
| "groups_of (FakeBottom # ns) = groups_of ns"

text \<open>
  \<^verbatim>\<open>Array.prototype.indexOf\<close> on a list of elements, for the first element that satisfies
  \<open>P\<close>: its position, or -1.
\<close>

definition js_indexOf :: "('a \<Rightarrow> bool) \<Rightarrow> 'a list \<Rightarrow> int" where
  "js_indexOf P xs = (case first_index P xs of Some k \<Rightarrow> int k | None \<Rightarrow> - 1)"

text \<open>
  The index \<^verbatim>\<open>DnD.moveGroup\<close> reads for a drop target (\<^verbatim>\<open>newIndex\<close>): the flat index of the
  target tab, or of the first tab of the target group, or -1 when there is none (the fake
  bottom, an empty group). And whether the drop target is a tab element inside the dragged
  group, which is when \<^verbatim>\<open>dropTarget.before(groupElement)\<close> throws.
\<close>

definition target_index :: "target \<Rightarrow> node list \<Rightarrow> int" where
  "target_index tg ns =
     (case tg of
        OnTab t \<Rightarrow> js_indexOf (\<lambda>e. el_id e = t) (flat ns)
      | OnGroup g \<Rightarrow> (case locate_group g ns of Some q \<Rightarrow> first_tab_index q ns | None \<Rightarrow> - 1)
      | OnFake \<Rightarrow> - 1)"

definition drop_inside :: "int \<Rightarrow> target \<Rightarrow> node list \<Rightarrow> bool" where
  "drop_inside gid tg ns =
     (case tg of
        OnTab t \<Rightarrow>
          (case locate_tab t ns of
             Some (Body i j) \<Rightarrow> locate_group gid ns = Some (Root i)
           | _ \<Rightarrow> False)
      | _ \<Rightarrow> False)"

text \<open>
  The scenario of the specification, as rendered during a drag: the tabs T1, T2, T3, T4
  (ids 1 to 4) of window 1, T2 and T3 in the group G1 (id 7, blue, titled work, expanded),
  which the cache knows, and the fake bottom as the last child of the main list.
\<close>

definition scenario :: panel where
  "scenario =
     \<lparr>mainList =
        [TabNode \<lparr>el_id = 1, el_group = - 1, el_active = True, el_pin = False,
                  el_dragging = False, el_drop_zone = True, el_drag_over = False\<rparr>,
         GroupNode
           \<lparr>gel_id = 7, gel_color = ''blue'', gel_collapse = False, gel_mark = False,
            hdr_dragging = False, hdr_collapse = False, hdr_drop_zone = True,
            hdr_drag_over = False\<rparr>
           [\<lparr>el_id = 2, el_group = 7, el_active = False, el_pin = False,
             el_dragging = False, el_drop_zone = True, el_drag_over = False\<rparr>,
            \<lparr>el_id = 3, el_group = 7, el_active = False, el_pin = False,
             el_dragging = False, el_drop_zone = True, el_drag_over = False\<rparr>],
         TabNode \<lparr>el_id = 4, el_group = - 1, el_active = False, el_pin = False,
                  el_dragging = False, el_drop_zone = True, el_drag_over = False\<rparr>,
         FakeBottom],
      WindowId = Some 1, dragging = True, fake_made = True, fake_drag_over = False,
      cache = [7 \<mapsto> \<lparr>group_id = 7, group_windowId = 1, title = ''work'', color = ''blue'',
                       collapsed = False\<rparr>],
      timer = None, clock = 0\<rparr>"

text \<open>The calls a drop ends in, whichever way it went (none when it was rejected).\<close>

definition calls_of :: "dropped \<Rightarrow> action list" where
  "calls_of r = (case r of Rejected \<Rightarrow> [] | TabDropped s as \<Rightarrow> as | GroupDropped c as \<Rightarrow> as)"

section \<open>Properties\<close>

subsection \<open>Bulk close\<close>

lemma showCloseConfirm_spec:
  "spec_bulk_close tabs P (showCloseConfirm (map tab_id (filter (\<lambda>t. P t \<and> \<not> pinned t) tabs)))"
  by (simp add: spec_bulk_close_def showCloseConfirm_def Let_def)

lemma showCloseConfirm_acts: "showCloseConfirm ids \<noteq> NoAction"
  by (simp add: showCloseConfirm_def)

lemma closeOthers_spec:
  "(closeOthers tabs f = NoAction \<longleftrightarrow> f = None \<or> el_id (the f) = 0) \<and>
   (closeOthers tabs f = NoAction \<or>
    (\<exists>e. f = Some e \<and> spec_bulk_close tabs (\<lambda>t. tab_id t \<noteq> el_id e) (closeOthers tabs f)))"
  using showCloseConfirm_spec [of tabs "\<lambda>t. tab_id t \<noteq> el_id (the f)"]
  by (cases f) (auto simp: closeOthers_def stepOne_def falsy_def showCloseConfirm_acts)

lemma closeLeft_spec:
  "(closeLeft tabs f = NoAction \<longleftrightarrow>
      f = None \<or> el_id (the f) = 0 \<or> find (\<lambda>t. tab_id t = el_id (the f)) tabs = None) \<and>
   (closeLeft tabs f = NoAction \<or>
    (\<exists>e sel. f = Some e \<and> find (\<lambda>t. tab_id t = el_id e) tabs = Some sel \<and>
       spec_bulk_close tabs (\<lambda>t. index t < index sel) (closeLeft tabs f)))"
  using showCloseConfirm_spec
    [of tabs "\<lambda>t. index t < index (the (find (\<lambda>t. tab_id t = el_id (the f)) tabs))"]
  by (cases f; cases "find (\<lambda>t. tab_id t = el_id (the f)) tabs")
     (auto simp: closeLeft_def stepOne_def falsy_def showCloseConfirm_acts)

lemma closeRight_spec:
  "(closeRight tabs f = NoAction \<longleftrightarrow>
      f = None \<or> el_id (the f) = 0 \<or> find (\<lambda>t. tab_id t = el_id (the f)) tabs = None) \<and>
   (closeRight tabs f = NoAction \<or>
    (\<exists>e sel. f = Some e \<and> find (\<lambda>t. tab_id t = el_id e) tabs = Some sel \<and>
       spec_bulk_close tabs (\<lambda>t. index sel < index t) (closeRight tabs f)))"
  using showCloseConfirm_spec
    [of tabs "\<lambda>t. index (the (find (\<lambda>t. tab_id t = el_id (the f)) tabs)) < index t"]
  by (cases f; cases "find (\<lambda>t. tab_id t = el_id (the f)) tabs")
     (auto simp: closeRight_def stepOne_def falsy_def showCloseConfirm_acts)

lemma closeGroupAbove_spec:
  "(closeGroupAbove tabs f = NoAction \<longleftrightarrow>
      f = None \<or> el_id (the f) = 0 \<or> el_group (the f) = NoGroup \<or>
      find (\<lambda>t. tab_id t = el_id (the f)) tabs = None) \<and>
   (closeGroupAbove tabs f = NoAction \<or>
    (\<exists>e sel. f = Some e \<and> find (\<lambda>t. tab_id t = el_id e) tabs = Some sel \<and>
       spec_bulk_close tabs (\<lambda>t. groupId t = el_group e \<and> index t < index sel)
         (closeGroupAbove tabs f)))"
  using showCloseConfirm_spec
    [of tabs "\<lambda>t. groupId t = el_group (the f) \<and>
                index t < index (the (find (\<lambda>t. tab_id t = el_id (the f)) tabs))"]
  by (cases f; cases "find (\<lambda>t. tab_id t = el_id (the f)) tabs")
     (auto simp: closeGroupAbove_def falsy_def showCloseConfirm_acts Let_def)

lemma closeGroupBelow_spec:
  "(closeGroupBelow tabs f = NoAction \<longleftrightarrow>
      f = None \<or> el_id (the f) = 0 \<or> el_group (the f) = NoGroup \<or>
      find (\<lambda>t. tab_id t = el_id (the f)) tabs = None) \<and>
   (closeGroupBelow tabs f = NoAction \<or>
    (\<exists>e sel. f = Some e \<and> find (\<lambda>t. tab_id t = el_id e) tabs = Some sel \<and>
       spec_bulk_close tabs (\<lambda>t. groupId t = el_group e \<and> index sel < index t)
         (closeGroupBelow tabs f)))"
  using showCloseConfirm_spec
    [of tabs "\<lambda>t. groupId t = el_group (the f) \<and>
                index (the (find (\<lambda>t. tab_id t = el_id (the f)) tabs)) < index t"]
  by (cases f; cases "find (\<lambda>t. tab_id t = el_id (the f)) tabs")
     (auto simp: closeGroupBelow_def falsy_def showCloseConfirm_acts Let_def)

text \<open>
  Claim C8. Each of the five bulk-close handlers (close others, close left, close right,
  close group-above, close group-below) either returns early without closing anything
  (no focused element, a falsy tab id, the focused tab missing from the live query, or,
  for the two group handlers, an ungrouped focused tab), or acts on exactly the ids of the
  tabs of the live query \<open>tabs\<close> that are unpinned and satisfy the handler's position or
  group-membership predicate; that list is removed at once when it has at most 10 ids and
  is handed to the confirmation dialog when it has more than 10.
\<close>

theorem bulk_close_filters_live_query:
  "((closeOthers tabs f = NoAction \<longleftrightarrow> f = None \<or> el_id (the f) = 0) \<and>
    (closeOthers tabs f = NoAction \<or>
     (\<exists>e. f = Some e \<and>
        spec_bulk_close tabs (\<lambda>t. tab_id t \<noteq> el_id e) (closeOthers tabs f)))) \<and>
   ((closeLeft tabs f = NoAction \<longleftrightarrow>
       f = None \<or> el_id (the f) = 0 \<or> find (\<lambda>t. tab_id t = el_id (the f)) tabs = None) \<and>
    (closeLeft tabs f = NoAction \<or>
     (\<exists>e sel. f = Some e \<and> find (\<lambda>t. tab_id t = el_id e) tabs = Some sel \<and>
        spec_bulk_close tabs (\<lambda>t. index t < index sel) (closeLeft tabs f)))) \<and>
   ((closeRight tabs f = NoAction \<longleftrightarrow>
       f = None \<or> el_id (the f) = 0 \<or> find (\<lambda>t. tab_id t = el_id (the f)) tabs = None) \<and>
    (closeRight tabs f = NoAction \<or>
     (\<exists>e sel. f = Some e \<and> find (\<lambda>t. tab_id t = el_id e) tabs = Some sel \<and>
        spec_bulk_close tabs (\<lambda>t. index sel < index t) (closeRight tabs f)))) \<and>
   ((closeGroupAbove tabs f = NoAction \<longleftrightarrow>
       f = None \<or> el_id (the f) = 0 \<or> el_group (the f) = NoGroup \<or>
       find (\<lambda>t. tab_id t = el_id (the f)) tabs = None) \<and>
    (closeGroupAbove tabs f = NoAction \<or>
     (\<exists>e sel. f = Some e \<and> find (\<lambda>t. tab_id t = el_id e) tabs = Some sel \<and>
        spec_bulk_close tabs (\<lambda>t. groupId t = el_group e \<and> index t < index sel)
          (closeGroupAbove tabs f)))) \<and>
   ((closeGroupBelow tabs f = NoAction \<longleftrightarrow>
       f = None \<or> el_id (the f) = 0 \<or> el_group (the f) = NoGroup \<or>
       find (\<lambda>t. tab_id t = el_id (the f)) tabs = None) \<and>
    (closeGroupBelow tabs f = NoAction \<or>
     (\<exists>e sel. f = Some e \<and> find (\<lambda>t. tab_id t = el_id e) tabs = Some sel \<and>
        spec_bulk_close tabs (\<lambda>t. groupId t = el_group e \<and> index sel < index t)
          (closeGroupBelow tabs f))))"
  using closeOthers_spec [of tabs f] closeLeft_spec [of tabs f] closeRight_spec [of tabs f]
    closeGroupAbove_spec [of tabs f] closeGroupBelow_spec [of tabs f]
  by blast

subsection \<open>Full build\<close>












subsection \<open>Group removal\<close>

lemma unwrap_group_decomp:
  "has_group_el gid ns \<Longrightarrow>
   \<exists>pre g body post. ns = pre @ GroupNode g body # post \<and> gel_id g = gid \<and>
      \<not> has_group_el gid pre \<and> unwrap_group gid ns = pre @ map TabNode body @ post"
proof (induction ns)
  case Nil
  then show ?case by (simp add: has_group_el_def)
next
  case (Cons n ns)
  show ?case
  proof (cases "is_group_with gid n")
    case True
    then obtain g body where n: "n = GroupNode g body" "gel_id g = gid"
      by (cases n) auto
    have "n # ns = [] @ GroupNode g body # ns \<and> gel_id g = gid \<and> \<not> has_group_el gid [] \<and>
          unwrap_group gid (n # ns) = [] @ map TabNode body @ ns"
      using n by (simp add: has_group_el_def)
    then show ?thesis by blast
  next
    case False
    with Cons.prems have "has_group_el gid ns" by (simp add: has_group_el_def)
    from Cons.IH [OF this] obtain pre g body post where
      d: "ns = pre @ GroupNode g body # post" "gel_id g = gid" "\<not> has_group_el gid pre"
         "unwrap_group gid ns = pre @ map TabNode body @ post"
      by blast
    have "n # ns = (n # pre) @ GroupNode g body # post \<and> gel_id g = gid \<and>
          \<not> has_group_el gid (n # pre) \<and>
          unwrap_group gid (n # ns) = (n # pre) @ map TabNode body @ post"
      using d False by (cases n) (auto simp: has_group_el_def)
    then show ?thesis by blast
  qed
qed

text \<open>
  Claim C7. When the removed group has a rendered group element, \<^verbatim>\<open>Groups.onRemoved\<close>
  deletes the group from the cache and replaces the first group element with that id by
  the tab elements of its body, in their order and at the place of the group element in
  the main list. Nothing else changes: the nodes before and after it, the flat order of
  the tab elements and the timer (no rebuild is scheduled) are as before.
\<close>

theorem onRemoved_unwraps_group:
  assumes "has_group_el (group_id gr) (mainList s)"
  shows "\<exists>pre g body post.
           mainList s = pre @ GroupNode g body # post \<and> gel_id g = group_id gr \<and>
           \<not> has_group_el (group_id gr) pre \<and>
           Groups_onRemoved gr s =
             s\<lparr>cache := (cache s)(group_id gr := None),
               mainList := pre @ map TabNode body @ post\<rparr> \<and>
           cache (Groups_onRemoved gr s) (group_id gr) = None \<and>
           flat (mainList (Groups_onRemoved gr s)) = flat (mainList s) \<and>
           timer (Groups_onRemoved gr s) = timer s"
proof -
  from unwrap_group_decomp [OF assms] obtain pre g body post where
    d: "mainList s = pre @ GroupNode g body # post" "gel_id g = group_id gr"
       "\<not> has_group_el (group_id gr) pre"
       "unwrap_group (group_id gr) (mainList s) = pre @ map TabNode body @ post"
    by blast
  have r: "Groups_onRemoved gr s =
      s\<lparr>cache := (cache s)(group_id gr := None), mainList := pre @ map TabNode body @ post\<rparr>"
    using assms d(4) by (simp add: Groups_onRemoved_def Let_def)
  have "flat (pre @ map TabNode body @ post) = flat (pre @ GroupNode g body # post)"
    by (induction body) (simp_all add: flat_def)
  with r d show ?thesis
    by (intro exI [of _ pre] exI [of _ g] exI [of _ body] exI [of _ post]) simp
qed

theorem onRemoved_unwraps_group_witness:
  "Groups_onRemoved
     \<lparr>group_id = 7, group_windowId = 1, title = ''g'', color = ''blue'', collapsed = False\<rparr>
     \<lparr>mainList =
        [TabNode (createTab \<lparr>tab_id = 1, windowId = 1, index = 0, groupId = NoGroup,
                             pinned = False, active = True\<rparr>),
         GroupNode
           (createGroup \<lparr>group_id = 7, group_windowId = 1, title = ''g'', color = ''blue'',
                          collapsed = False\<rparr>)
           [createTab \<lparr>tab_id = 2, windowId = 1, index = 1, groupId = 7, pinned = False,
                       active = False\<rparr>,
            createTab \<lparr>tab_id = 3, windowId = 1, index = 2, groupId = 7, pinned = False,
                       active = False\<rparr>],
         TabNode (createTab \<lparr>tab_id = 4, windowId = 1, index = 3, groupId = NoGroup,
                             pinned = False, active = False\<rparr>)],
      WindowId = Some 1, dragging = False, fake_made = False,
      fake_drag_over = False, cache = Map.empty, timer = None, clock = 0\<rparr>
   = \<lparr>mainList =
        [TabNode (createTab \<lparr>tab_id = 1, windowId = 1, index = 0, groupId = NoGroup,
                             pinned = False, active = True\<rparr>),
         TabNode (createTab \<lparr>tab_id = 2, windowId = 1, index = 1, groupId = 7, pinned = False,
                             active = False\<rparr>),
         TabNode (createTab \<lparr>tab_id = 3, windowId = 1, index = 2, groupId = 7, pinned = False,
                             active = False\<rparr>),
         TabNode (createTab \<lparr>tab_id = 4, windowId = 1, index = 3, groupId = NoGroup,
                             pinned = False, active = False\<rparr>)],
      WindowId = Some 1, dragging = False, fake_made = False,
      fake_drag_over = False, cache = Map.empty, timer = None, clock = 0\<rparr>"
  using onRemoved_unwraps_group
    [of "\<lparr>group_id = 7, group_windowId = 1, title = ''g'', color = ''blue'', collapsed = False\<rparr>"
     "\<lparr>mainList =
        [TabNode (createTab \<lparr>tab_id = 1, windowId = 1, index = 0, groupId = NoGroup,
                             pinned = False, active = True\<rparr>),
         GroupNode
           (createGroup \<lparr>group_id = 7, group_windowId = 1, title = ''g'', color = ''blue'',
                          collapsed = False\<rparr>)
           [createTab \<lparr>tab_id = 2, windowId = 1, index = 1, groupId = 7, pinned = False,
                       active = False\<rparr>,
            createTab \<lparr>tab_id = 3, windowId = 1, index = 2, groupId = 7, pinned = False,
                       active = False\<rparr>],
         TabNode (createTab \<lparr>tab_id = 4, windowId = 1, index = 3, groupId = NoGroup,
                             pinned = False, active = False\<rparr>)],
      WindowId = Some 1, dragging = False, fake_made = False,
      fake_drag_over = False, cache = Map.empty, timer = None, clock = 0\<rparr>"]
  by (simp add: Groups_onRemoved_def has_group_el_def createGroup_def)

subsection \<open>Events that refer to a tab without an element\<close>

lemma has_tab_el_cleared:
  "has_tab_el tid (map (map_tab_els (\<lambda>e. e\<lparr>el_active := False\<rparr>)) ns) = has_tab_el tid ns"
proof -
  have "flat (map (map_tab_els f) ns) = map f (flat ns)" for f
  proof (induction ns)
    case Nil
    show ?case by (simp add: flat_def)
  next
    case (Cons n ns)
    then show ?case by (cases n) (simp_all add: flat_def)
  qed
  then show ?thesis
    by (simp add: has_tab_el_def list_ex_iff)
qed

text \<open>
  Claim C6, at an input where it fails. The current window is 1 and renders only tab 5.
  A tab-activated event for tab 9 of window 1, which has no element, leaves the timer
  unset: no rebuild is scheduled.
\<close>

theorem onActivated_missing_node_counterexample:
  "timer (onActivated 1 9
     \<lparr>mainList =
        [TabNode \<lparr>el_id = 5, el_group = NoGroup, el_active = True, el_pin = False,
                  el_dragging = False, el_drop_zone = False, el_drag_over = False\<rparr>],
      WindowId = Some 1, dragging = False, fake_made = False,
      fake_drag_over = False, cache = Map.empty, timer = None, clock = 0\<rparr>) = None"
  by (simp add: onActivated_def has_tab_el_def flat_def)

text \<open>
  Claim C6, amended. For an event addressed to the current window that refers to a tab
  without a rendered element: \<^verbatim>\<open>Tabs.onUpdated\<close> does nothing but delay a rebuild (due
  400 ms later); \<^verbatim>\<open>Tabs.onActivated\<close> removes the active marker from every tab element and
  changes nothing else, so the timer is as it was and no rebuild is scheduled.
\<close>

theorem missing_node_updated_rebuilds_activated_clears:
  assumes "WindowId s = Some win" and "\<not> has_tab_el tabId (mainList s)"
  shows "(windowId t = win \<longrightarrow>
            onUpdated tabId ci t s = delayRebuild s \<and>
            mainList (onUpdated tabId ci t s) = mainList s \<and>
            timer (onUpdated tabId ci t s) = Some (clock s + 400)) \<and>
         onActivated win tabId s =
           s\<lparr>mainList := map (map_tab_els (\<lambda>e. e\<lparr>el_active := False\<rparr>)) (mainList s)\<rparr> \<and>
         timer (onActivated win tabId s) = timer s"
  using assms
  by (simp add: onUpdated_def onActivated_def delayRebuild_def has_tab_el_cleared Let_def)

theorem missing_node_updated_rebuilds_activated_clears_witness:
  "timer (onUpdated 9 \<lparr>ci_pinned = None, ci_groupId = None\<rparr>
     \<lparr>tab_id = 9, windowId = 1, index = 1, groupId = NoGroup, pinned = False, active = True\<rparr>
     \<lparr>mainList =
        [TabNode \<lparr>el_id = 5, el_group = NoGroup, el_active = True, el_pin = False,
                  el_dragging = False, el_drop_zone = False, el_drag_over = False\<rparr>],
      WindowId = Some 1, dragging = False, fake_made = False,
      fake_drag_over = False, cache = Map.empty, timer = None, clock = 0\<rparr>) = Some 400 \<and>
   mainList (onActivated 1 9
     \<lparr>mainList =
        [TabNode \<lparr>el_id = 5, el_group = NoGroup, el_active = True, el_pin = False,
                  el_dragging = False, el_drop_zone = False, el_drag_over = False\<rparr>],
      WindowId = Some 1, dragging = False, fake_made = False,
      fake_drag_over = False, cache = Map.empty, timer = None, clock = 0\<rparr>) =
     [TabNode \<lparr>el_id = 5, el_group = NoGroup, el_active = False, el_pin = False,
               el_dragging = False, el_drop_zone = False, el_drag_over = False\<rparr>]"
proof -
  let ?s = "\<lparr>mainList =
        [TabNode \<lparr>el_id = 5, el_group = NoGroup, el_active = True, el_pin = False,
                  el_dragging = False, el_drop_zone = False, el_drag_over = False\<rparr>],
      WindowId = Some 1, dragging = False, fake_made = False,
      fake_drag_over = False, cache = Map.empty, timer = None, clock = 0\<rparr>"
  let ?t = "\<lparr>tab_id = 9, windowId = 1, index = 1, groupId = NoGroup, pinned = False,
      active = True\<rparr>"
  have w: "WindowId ?s = Some 1" by simp
  have m: "\<not> has_tab_el 9 (mainList ?s)" by (simp add: has_tab_el_def flat_def)
  from missing_node_updated_rebuilds_activated_clears
    [OF w m, of ?t "\<lparr>ci_pinned = None, ci_groupId = None\<rparr>"]
  show ?thesis by (simp add: delayRebuild_def)
qed

subsection \<open>Incremental insertion\<close>

lemma flat_Cons: "flat (n # ns) = tabs_of n @ flat ns"
  by (simp add: flat_def)

lemma flat_append: "flat (xs @ ys) = flat xs @ flat ys"
  by (simp add: flat_def)

lemma flat_Nil: "flat [] = []"
  by (simp add: flat_def)

lemma insertBeforeAt_decomp:
  "i < length (flat ns) \<Longrightarrow>
   \<exists>pre n post. ns = pre @ n # post \<and> length (flat pre) \<le> i \<and>
     i < length (flat pre) + length (tabs_of n) \<and>
     insertBeforeAt i e ns = Some (pre @ TabNode e # n # post)"
proof (induction ns arbitrary: i)
  case Nil
  then show ?case by (simp add: flat_Nil)
next
  case (Cons m ns)
  show ?case
  proof (cases "i < length (tabs_of m)")
    case True
    have "m # ns = [] @ m # ns \<and> length (flat []) \<le> i \<and>
          i < length (flat []) + length (tabs_of m) \<and>
          insertBeforeAt i e (m # ns) = Some ([] @ TabNode e # m # ns)"
      using True by (cases m) (simp_all add: flat_Nil)
    then show ?thesis by blast
  next
    case False
    let ?k = "i - length (tabs_of m)"
    have "?k < length (flat ns)" using Cons.prems False by (simp add: flat_Cons)
    from Cons.IH [OF this] obtain pre n post where
      d: "ns = pre @ n # post" "length (flat pre) \<le> ?k"
         "?k < length (flat pre) + length (tabs_of n)"
         "insertBeforeAt ?k e ns = Some (pre @ TabNode e # n # post)"
      by blast
    have "m # ns = (m # pre) @ n # post \<and> length (flat (m # pre)) \<le> i \<and>
          i < length (flat (m # pre)) + length (tabs_of n) \<and>
          insertBeforeAt i e (m # ns) = Some ((m # pre) @ TabNode e # n # post)"
      using d False by (cases m) (auto simp: flat_Cons)
    then show ?thesis by blast
  qed
qed

lemma insertAfterAt_decomp:
  "i < length (flat ns) \<Longrightarrow>
   (\<exists>pre p post. ns = pre @ TabNode p # post \<and> i = length (flat pre) \<and>
      insertAfterAt i e ns = Some (pre @ TabNode p # TabNode e # post)) \<or>
   (\<exists>pre g body post j. ns = pre @ GroupNode g body # post \<and> j < length body \<and>
      i = length (flat pre) + j \<and>
      insertAfterAt i e ns =
        Some (pre @ GroupNode g (take (Suc j) body @ e # drop (Suc j) body) # post))"
proof (induction ns arbitrary: i)
  case Nil
  then show ?case by (simp add: flat_Nil)
next
  case (Cons m ns)
  show ?case
  proof (cases "i < length (tabs_of m)")
    case True
    show ?thesis
    proof (cases m)
      case (TabNode p)
      with True have "m # ns = [] @ TabNode p # ns \<and> i = length (flat []) \<and>
          insertAfterAt i e (m # ns) = Some ([] @ TabNode p # TabNode e # ns)"
        by (simp add: flat_Nil)
      then show ?thesis by blast
    next
      case (GroupNode g body)
      with True have "m # ns = [] @ GroupNode g body # ns \<and> i < length body \<and>
          i = length (flat []) + i \<and>
          insertAfterAt i e (m # ns) =
            Some ([] @ GroupNode g (take (Suc i) body @ e # drop (Suc i) body) # ns)"
        by (simp add: flat_Nil)
      then show ?thesis by blast
    next
      case FakeBottom
      with True show ?thesis by simp
    qed
  next
    case False
    let ?k = "i - length (tabs_of m)"
    have k: "?k < length (flat ns)" using Cons.prems False by (simp add: flat_Cons)
    have step: "insertAfterAt i e (m # ns) = map_option ((#) m) (insertAfterAt ?k e ns)"
      using False by (cases m) auto
    have i: "i = length (tabs_of m) + ?k" using False by simp
    from Cons.IH [OF k] show ?thesis
    proof
      assume "\<exists>pre p post. ns = pre @ TabNode p # post \<and> ?k = length (flat pre) \<and>
          insertAfterAt ?k e ns = Some (pre @ TabNode p # TabNode e # post)"
      then obtain pre p post where d: "ns = pre @ TabNode p # post" "?k = length (flat pre)"
          "insertAfterAt ?k e ns = Some (pre @ TabNode p # TabNode e # post)"
        by blast
      have "m # ns = (m # pre) @ TabNode p # post \<and> i = length (flat (m # pre)) \<and>
          insertAfterAt i e (m # ns) = Some ((m # pre) @ TabNode p # TabNode e # post)"
        using d step i by (simp add: flat_Cons)
      then show ?thesis by blast
    next
      assume "\<exists>pre g body post j. ns = pre @ GroupNode g body # post \<and> j < length body \<and>
          ?k = length (flat pre) + j \<and>
          insertAfterAt ?k e ns =
            Some (pre @ GroupNode g (take (Suc j) body @ e # drop (Suc j) body) # post)"
      then obtain pre g body post j where d: "ns = pre @ GroupNode g body # post"
          "j < length body" "?k = length (flat pre) + j"
          "insertAfterAt ?k e ns =
            Some (pre @ GroupNode g (take (Suc j) body @ e # drop (Suc j) body) # post)"
        by blast
      have "m # ns = (m # pre) @ GroupNode g body # post \<and> j < length body \<and>
          i = length (flat (m # pre)) + j \<and>
          insertAfterAt i e (m # ns) =
            Some ((m # pre) @ GroupNode g (take (Suc j) body @ e # drop (Suc j) body) # post)"
        using d step i by (simp add: flat_Cons)
      then show ?thesis by blast
    qed
  qed
qed

lemma insertTab_append:
  "groupId t = NoGroup \<Longrightarrow> index t = length (flat (mainList s)) \<Longrightarrow>
   insertTab t s = s\<lparr>mainList := mainList s @ [TabNode (createTab t)]\<rparr>"
  by (simp add: insertTab_def Let_def)

lemma insertTab_before:
  assumes "groupId t = NoGroup" and "index t < length (flat (mainList s))"
  shows "\<exists>pre n post. mainList s = pre @ n # post \<and> length (flat pre) \<le> index t \<and>
           index t < length (flat pre) + length (tabs_of n) \<and>
           insertTab t s = s\<lparr>mainList := pre @ TabNode (createTab t) # n # post\<rparr>"
proof -
  from insertBeforeAt_decomp [OF assms(2), of "createTab t"] obtain pre n post where
    d: "mainList s = pre @ n # post" "length (flat pre) \<le> index t"
       "index t < length (flat pre) + length (tabs_of n)"
       "insertBeforeAt (index t) (createTab t) (mainList s) =
          Some (pre @ TabNode (createTab t) # n # post)"
    by blast
  have "insertTab t s = s\<lparr>mainList := pre @ TabNode (createTab t) # n # post\<rparr>"
    using assms d(4) by (simp add: insertTab_def Let_def)
  with d show ?thesis by blast
qed

lemma insertTab_beyond:
  "groupId t = NoGroup \<Longrightarrow> length (flat (mainList s)) < index t \<Longrightarrow>
   insertTab t s = delayRebuild s"
  by (simp add: insertTab_def Let_def)

lemma insertTab_after:
  assumes "groupId t \<noteq> NoGroup" and "has_group_el (groupId t) (mainList s)"
      and "0 < index t" and "index t \<le> length (flat (mainList s))"
      and "el_group (flat (mainList s) ! (index t - 1)) = groupId t"
  shows "(\<exists>pre p post. mainList s = pre @ TabNode p # post \<and>
            index t - 1 = length (flat pre) \<and>
            insertTab t s = s\<lparr>mainList := pre @ TabNode p # TabNode (createTab t) # post\<rparr>) \<or>
         (\<exists>pre g body post j. mainList s = pre @ GroupNode g body # post \<and> j < length body \<and>
            index t - 1 = length (flat pre) + j \<and>
            insertTab t s =
              s\<lparr>mainList :=
                  pre @ GroupNode g (take (Suc j) body @ createTab t # drop (Suc j) body) # post\<rparr>)"
proof -
  have lt: "index t - 1 < length (flat (mainList s))" using assms(3,4) by simp
  have run: "insertTab t s =
      (case insertAfterAt (index t - 1) (createTab t) (mainList s) of
         Some ml \<Rightarrow> s\<lparr>mainList := ml\<rparr> | None \<Rightarrow> delayRebuild s)"
    using assms lt by (simp add: insertTab_def Let_def item_def)
  from insertAfterAt_decomp [OF lt, of "createTab t"] show ?thesis
  proof
    assume "\<exists>pre p post. mainList s = pre @ TabNode p # post \<and>
        index t - 1 = length (flat pre) \<and>
        insertAfterAt (index t - 1) (createTab t) (mainList s) =
          Some (pre @ TabNode p # TabNode (createTab t) # post)"
    then obtain pre p post where d: "mainList s = pre @ TabNode p # post"
        "index t - 1 = length (flat pre)"
        "insertAfterAt (index t - 1) (createTab t) (mainList s) =
          Some (pre @ TabNode p # TabNode (createTab t) # post)"
      by blast
    have "insertTab t s = s\<lparr>mainList := pre @ TabNode p # TabNode (createTab t) # post\<rparr>"
      using run d(3) by simp
    with d show ?thesis by blast
  next
    assume "\<exists>pre g body post j. mainList s = pre @ GroupNode g body # post \<and>
        j < length body \<and> index t - 1 = length (flat pre) + j \<and>
        insertAfterAt (index t - 1) (createTab t) (mainList s) =
          Some (pre @ GroupNode g (take (Suc j) body @ createTab t # drop (Suc j) body) # post)"
    then obtain pre g body post j where d: "mainList s = pre @ GroupNode g body # post"
        "j < length body" "index t - 1 = length (flat pre) + j"
        "insertAfterAt (index t - 1) (createTab t) (mainList s) =
          Some (pre @ GroupNode g (take (Suc j) body @ createTab t # drop (Suc j) body) # post)"
      by blast
    have "insertTab t s =
        s\<lparr>mainList :=
            pre @ GroupNode g (take (Suc j) body @ createTab t # drop (Suc j) body) # post\<rparr>"
      using run d(4) by simp
    with d show ?thesis by blast
  qed
qed

lemma insertTab_fallback:
  assumes "groupId t \<noteq> NoGroup"
      and "\<not> (has_group_el (groupId t) (mainList s) \<and> 0 < index t \<and>
              index t \<le> length (flat (mainList s)) \<and>
              el_group (flat (mainList s) ! (index t - 1)) = groupId t)"
  shows "insertTab t s = delayRebuild s"
  using assms by (auto simp: insertTab_def Let_def item_def)

text \<open>
  Claim C5. \<^verbatim>\<open>Tabs.insertTab\<close> for a tab \<open>t\<close>, the rendered tab elements being
  \<open>flat (mainList s)\<close>. Ungrouped, index equal to their number: the new element is appended
  to the main list. Ungrouped, a tab element at that flat index: the new element becomes
  the previous sibling of the child \<open>n\<close> of the main list that is or holds that element
  (the element itself, or its group). Grouped, the group element rendered and the tab
  element at index - 1 tagged with the same group: the new element becomes the next
  sibling of that tab element, in the main list or in the group body. In every other
  case the main list is not touched and a rebuild is delayed.
\<close>

theorem insertTab_position_policy:
  "(groupId t = NoGroup \<and> index t = length (flat (mainList s)) \<longrightarrow>
      insertTab t s = s\<lparr>mainList := mainList s @ [TabNode (createTab t)]\<rparr>) \<and>
   (groupId t = NoGroup \<and> index t < length (flat (mainList s)) \<longrightarrow>
      (\<exists>pre n post. mainList s = pre @ n # post \<and> length (flat pre) \<le> index t \<and>
         index t < length (flat pre) + length (tabs_of n) \<and>
         insertTab t s = s\<lparr>mainList := pre @ TabNode (createTab t) # n # post\<rparr>)) \<and>
   (groupId t = NoGroup \<and> length (flat (mainList s)) < index t \<longrightarrow>
      insertTab t s = delayRebuild s) \<and>
   (groupId t \<noteq> NoGroup \<and> has_group_el (groupId t) (mainList s) \<and> 0 < index t \<and>
    index t \<le> length (flat (mainList s)) \<and>
    el_group (flat (mainList s) ! (index t - 1)) = groupId t \<longrightarrow>
      (\<exists>pre p post. mainList s = pre @ TabNode p # post \<and>
          index t - 1 = length (flat pre) \<and>
          insertTab t s = s\<lparr>mainList := pre @ TabNode p # TabNode (createTab t) # post\<rparr>) \<or>
      (\<exists>pre g body post j. mainList s = pre @ GroupNode g body # post \<and> j < length body \<and>
          index t - 1 = length (flat pre) + j \<and>
          insertTab t s =
            s\<lparr>mainList :=
                pre @ GroupNode g (take (Suc j) body @ createTab t # drop (Suc j) body) # post\<rparr>)) \<and>
   (groupId t \<noteq> NoGroup \<and>
    \<not> (has_group_el (groupId t) (mainList s) \<and> 0 < index t \<and>
       index t \<le> length (flat (mainList s)) \<and>
       el_group (flat (mainList s) ! (index t - 1)) = groupId t) \<longrightarrow>
      insertTab t s = delayRebuild s)"
  using insertTab_append [of t s] insertTab_before [of t s] insertTab_beyond [of t s]
    insertTab_after [of t s] insertTab_fallback [of t s]
  by blast

theorem insertTab_position_policy_witness:
  "insertTab
     \<lparr>tab_id = 9, windowId = 1, index = 2, groupId = NoGroup, pinned = False, active = False\<rparr>
     \<lparr>mainList =
        [TabNode (createTab \<lparr>tab_id = 1, windowId = 1, index = 0, groupId = NoGroup,
                             pinned = False, active = True\<rparr>),
         GroupNode
           (createGroup \<lparr>group_id = 7, group_windowId = 1, title = ''g'', color = ''blue'',
                          collapsed = False\<rparr>)
           [createTab \<lparr>tab_id = 2, windowId = 1, index = 1, groupId = 7, pinned = False,
                       active = False\<rparr>,
            createTab \<lparr>tab_id = 3, windowId = 1, index = 2, groupId = 7, pinned = False,
                       active = False\<rparr>]],
      WindowId = Some 1, dragging = False, fake_made = False,
      fake_drag_over = False, cache = Map.empty, timer = None, clock = 0\<rparr>
   = \<lparr>mainList =
        [TabNode (createTab \<lparr>tab_id = 1, windowId = 1, index = 0, groupId = NoGroup,
                             pinned = False, active = True\<rparr>),
         TabNode (createTab \<lparr>tab_id = 9, windowId = 1, index = 2, groupId = NoGroup,
                             pinned = False, active = False\<rparr>),
         GroupNode
           (createGroup \<lparr>group_id = 7, group_windowId = 1, title = ''g'', color = ''blue'',
                          collapsed = False\<rparr>)
           [createTab \<lparr>tab_id = 2, windowId = 1, index = 1, groupId = 7, pinned = False,
                       active = False\<rparr>,
            createTab \<lparr>tab_id = 3, windowId = 1, index = 2, groupId = 7, pinned = False,
                       active = False\<rparr>]],
      WindowId = Some 1, dragging = False, fake_made = False,
      fake_drag_over = False, cache = Map.empty, timer = None, clock = 0\<rparr>"
proof -
  let ?t = "\<lparr>tab_id = 9, windowId = 1, index = 2, groupId = NoGroup, pinned = False,
      active = False\<rparr>"
  let ?t1 = "TabNode (createTab \<lparr>tab_id = 1, windowId = 1, index = 0, groupId = NoGroup,
                             pinned = False, active = True\<rparr>)"
  let ?g = "GroupNode
           (createGroup \<lparr>group_id = 7, group_windowId = 1, title = ''g'', color = ''blue'',
                          collapsed = False\<rparr>)
           [createTab \<lparr>tab_id = 2, windowId = 1, index = 1, groupId = 7, pinned = False,
                       active = False\<rparr>,
            createTab \<lparr>tab_id = 3, windowId = 1, index = 2, groupId = 7, pinned = False,
                       active = False\<rparr>]"
  let ?s = "\<lparr>mainList = [?t1, ?g],
      WindowId = Some 1, dragging = False, fake_made = False,
      fake_drag_over = False, cache = Map.empty, timer = None, clock = 0\<rparr>"
  have hyp: "groupId ?t = NoGroup \<and> index ?t < length (flat (mainList ?s))"
    by (simp add: flat_def)
  with insertTab_position_policy [of ?t ?s]
  obtain pre n post where d: "mainList ?s = pre @ n # post" "length (flat pre) \<le> index ?t"
      "index ?t < length (flat pre) + length (tabs_of n)"
      "insertTab ?t ?s = ?s\<lparr>mainList := pre @ TabNode (createTab ?t) # n # post\<rparr>"
    by blast
  from d(1) have "pre = [] \<and> n = ?t1 \<and> post = [?g] \<or> pre = [?t1] \<and> n = ?g \<and> post = []"
    by (cases pre; cases "tl pre") auto
  with d(2,3) have "pre = [?t1] \<and> n = ?g \<and> post = []"
    by (auto simp: flat_def)
  with d(4) show ?thesis by simp
qed

subsection \<open>The debounce timer\<close>

lemma run_to_idle:
  "timer s = None \<Longrightarrow> run_to w t s = ([], s\<lparr>clock := max (clock s) t\<rparr>)"
  by (subst run_to.simps) simp

lemma run_to_early:
  "timer s = Some d \<Longrightarrow> t < d \<Longrightarrow> run_to w t s = ([], s\<lparr>clock := max (clock s) t\<rparr>)"
  by (subst run_to.simps) simp

lemma run_to_due:
  assumes "timer s = Some d" and "d \<le> t" and "clock s \<le> t"
      and "run_to w t (fire w d s) = (fs, s')"
  shows "run_to w t s = (max (clock s) d # fs, s')"
  using assms by (subst run_to.simps) simp

lemma fire_timer:
  "timer (fire w d s) = None \<or> timer (fire w d s) = Some (max (clock s) d + 400)"
  by (simp add: fire_def build_def delayRebuild_def split: prod.splits option.splits)

lemma burst_quiet:
  "spaced_within 400 t ts \<Longrightarrow> timer s = Some (t + 400) \<Longrightarrow> clock s = t \<Longrightarrow>
   burst w ts s = ([], s\<lparr>clock := last (t # ts), timer := Some (last (t # ts) + 400)\<rparr>)"
proof (induction ts arbitrary: t s)
  case Nil
  then show ?case by simp
next
  case (Cons u us)
  from Cons.prems have u: "t \<le> u" "u < t + 400" "spaced_within 400 u us" by simp_all
  have r: "run_to w u s = ([], s\<lparr>clock := u\<rparr>)"
    using run_to_early [of s "t + 400" u w] Cons.prems(2,3) u by (simp add: max_def)
  let ?s1 = "delayRebuild (s\<lparr>clock := u\<rparr>)"
  have "burst w us ?s1 =
      ([], ?s1\<lparr>clock := last (u # us), timer := Some (last (u # us) + 400)\<rparr>)"
    by (rule Cons.IH [OF u(3)]) (simp_all add: delayRebuild_def)
  with r show ?case by (simp add: delayRebuild_def)
qed

lemma build_clock: "clock (build h s) = clock s"
  by (simp add: build_def delayRebuild_def split: prod.splits option.splits)

lemma fire_due:
  "clock s \<le> d \<Longrightarrow> fire w d s = build (w d) (s\<lparr>clock := d, timer := None\<rparr>)"
  by (simp add: fire_def max_def)

lemma run_to_once:
  assumes pending: "timer s = Some d" and now: "clock s \<le> d" and due: "d \<le> h"
      and settled: "timer (fire w d s) = None \<or> h < d + 400"
  shows "run_to w h s = ([d], (fire w d s)\<lparr>clock := h\<rparr>)"
proof -
  have c: "clock (fire w d s) = d"
    using now by (simp add: fire_due build_clock)
  have "timer (fire w d s) = None \<or> timer (fire w d s) = Some (d + 400)"
    using fire_timer [of w d s] now by (simp add: max_def)
  then have "run_to w h (fire w d s) = ([], (fire w d s)\<lparr>clock := h\<rparr>)"
  proof
    assume "timer (fire w d s) = None"
    from run_to_idle [OF this, of w h] c due show ?thesis by (simp add: max_def)
  next
    assume re: "timer (fire w d s) = Some (d + 400)"
    with settled have "h < d + 400" by auto
    from run_to_early [OF re this, of w] c due show ?thesis by (simp add: max_def)
  qed
  from run_to_due [OF pending due _ this] now due show ?thesis by (simp add: max_def)
qed

text \<open>
  Claim C4. A burst of one or more calls of \<^verbatim>\<open>Tabs.delayRebuild\<close>, at the times \<open>t # ts\<close>,
  each less than 400 ms after the one before, starting when no timeout is due before the
  first call. During the burst the timer never runs \<^verbatim>\<open>Tabs.build\<close>, and after the last
  call, at time \<open>L\<close>, exactly one timeout is pending, due at \<open>L + 400\<close>. Nothing runs before
  that time. Up to any time before \<open>L + 800\<close>, \<^verbatim>\<open>Tabs.build\<close> has run exactly once, at
  \<open>L + 400\<close>; and unless that run itself has asked for a new rebuild (the missing-group
  exit of the build), it is the only run up to any later time.
\<close>

theorem debounce_coalesces_burst:
  assumes idle: "timer s = None \<or> (\<exists>d. timer s = Some d \<and> t < d)"
      and now: "clock s \<le> t"
      and quiet: "spaced_within 400 t ts"
  shows "burst w (t # ts) s =
           ([], s\<lparr>clock := last (t # ts), timer := Some (last (t # ts) + 400)\<rparr>) \<and>
         (\<forall>h. h < last (t # ts) + 400 \<longrightarrow>
            fst (run_to w h (snd (burst w (t # ts) s))) = []) \<and>
         (\<forall>h. last (t # ts) + 400 \<le> h \<and> h < last (t # ts) + 800 \<longrightarrow>
            fst (run_to w h (snd (burst w (t # ts) s))) = [last (t # ts) + 400]) \<and>
         (\<forall>h. last (t # ts) + 400 \<le> h \<and>
              timer (fire w (last (t # ts) + 400) (snd (burst w (t # ts) s))) = None \<longrightarrow>
            fst (run_to w h (snd (burst w (t # ts) s))) = [last (t # ts) + 400])"
proof -
  let ?L = "last (t # ts)"
  let ?s' = "s\<lparr>clock := ?L, timer := Some (?L + 400)\<rparr>"
  have first: "run_to w t s = ([], s\<lparr>clock := t\<rparr>)"
    using idle
  proof
    assume "timer s = None"
    from run_to_idle [OF this, of w t] now show ?thesis by (simp add: max_def)
  next
    assume "\<exists>d. timer s = Some d \<and> t < d"
    then obtain d where "timer s = Some d" "t < d" by blast
    from run_to_early [OF this, of w] now show ?thesis by (simp add: max_def)
  qed
  let ?s1 = "delayRebuild (s\<lparr>clock := t\<rparr>)"
  have "burst w ts ?s1 = ([], ?s1\<lparr>clock := ?L, timer := Some (?L + 400)\<rparr>)"
    by (rule burst_quiet [OF quiet]) (simp_all add: delayRebuild_def)
  with first have b: "burst w (t # ts) s = ([], ?s')"
    by (simp add: delayRebuild_def)
  have p: "timer ?s' = Some (?L + 400)" and c: "clock ?s' \<le> ?L + 400" by simp_all
  have before: "fst (run_to w h ?s') = []" if "h < ?L + 400" for h
    using run_to_early [OF p that, of w] by simp
  have once: "fst (run_to w h ?s') = [?L + 400]"
    if "?L + 400 \<le> h" and "timer (fire w (?L + 400) ?s') = None \<or> h < ?L + 400 + 400" for h
    using run_to_once [OF p c that] by simp
  from b before once show ?thesis by simp
qed

theorem debounce_coalesces_burst_witness:
  "fst (run_to (\<lambda>t. \<lparr>current_id = 1, current_tabs = [], tabGroups_get = (\<lambda>g. None)\<rparr>) 2000
     (snd (burst (\<lambda>t. \<lparr>current_id = 1, current_tabs = [], tabGroups_get = (\<lambda>g. None)\<rparr>)
        [100, 300, 650]
        \<lparr>mainList = [], WindowId = Some 1, dragging = False, fake_made = False,
         fake_drag_over = False, cache = Map.empty, timer = None,
         clock = 0\<rparr>))) = [1050]"
proof -
  let ?w = "\<lambda>t::nat. \<lparr>current_id = 1, current_tabs = [], tabGroups_get = (\<lambda>g. None)\<rparr>"
  let ?s = "\<lparr>mainList = [], WindowId = Some 1, dragging = False, fake_made = False,
         fake_drag_over = False, cache = Map.empty, timer = None,
         clock = 0\<rparr>"
  have a: "timer ?s = None \<or> (\<exists>d. timer ?s = Some d \<and> 100 < d)" by simp
  have b: "clock ?s \<le> 100" by simp
  have c: "spaced_within 400 100 [300, 650]" by simp
  have d: "timer (fire ?w 1050 (?s\<lparr>clock := 650, timer := Some 1050\<rparr>)) = None"
    by (simp add: fire_def build_def)
  from debounce_coalesces_burst [OF a b c, of ?w] d show ?thesis by simp
qed

lemma dragEnd_timer: "timer (state_of (dragEnd x s)) = timer s"
  by (simp add: dragEnd_def remove_fakeBottom_def)

lemma groupDragEnd_timer: "timer (state_of (groupDragEnd x s)) = timer s"
  by (simp add: groupDragEnd_def remove_fakeBottom_def)

text \<open>
  Claim C10. A drag is active and the pending timeout comes due. The timer runs
  \<^verbatim>\<open>Tabs.build\<close> once, and the build returns at once: the state afterwards is the state
  before, with the clock advanced and no timeout pending, so the main list is untouched
  and nothing is rescheduled. The end of the drag (\<^verbatim>\<open>DnD.dragEnd\<close> or \<^verbatim>\<open>DnD.groupDragEnd\<close>)
  sets no timeout either, so from the state it leaves, the timer never runs
  \<^verbatim>\<open>Tabs.build\<close>, however much time passes, unless something else asks for a rebuild.
\<close>

theorem rebuild_due_while_dragging_is_lost:
  assumes drag: "dragging s" and pending: "timer s = Some d"
      and due: "d \<le> t" and now: "clock s \<le> t"
  shows "run_to w t s = ([max (clock s) d], s\<lparr>clock := t, timer := None\<rparr>) \<and>
         mainList (snd (run_to w t s)) = mainList s \<and>
         timer (snd (run_to w t s)) = None \<and>
         (\<forall>x t'. timer (state_of (dragEnd x (snd (run_to w t s)))) = None \<and>
                 fst (run_to w t' (state_of (dragEnd x (snd (run_to w t s))))) = []) \<and>
         (\<forall>x t'. timer (state_of (groupDragEnd x (snd (run_to w t s)))) = None \<and>
                 fst (run_to w t' (state_of (groupDragEnd x (snd (run_to w t s))))) = [])"
proof -
  let ?m = "max (clock s) d"
  have f: "fire w d s = s\<lparr>clock := ?m, timer := None\<rparr>"
    using drag by (simp add: fire_def build_def)
  have "run_to w t (fire w d s) = ([], s\<lparr>clock := t, timer := None\<rparr>)"
    using run_to_idle [of "s\<lparr>clock := ?m, timer := None\<rparr>" w t] f due now
    by (simp add: max_def)
  from run_to_due [OF pending due now this]
  have r: "run_to w t s = ([?m], s\<lparr>clock := t, timer := None\<rparr>)" .
  let ?s' = "s\<lparr>clock := t, timer := None\<rparr>"
  have "timer (state_of (dragEnd x ?s')) = None \<and>
        fst (run_to w t' (state_of (dragEnd x ?s'))) = []" for x t'
    using run_to_idle [of "state_of (dragEnd x ?s')" w t'] by (simp add: dragEnd_timer)
  moreover have "timer (state_of (groupDragEnd x ?s')) = None \<and>
        fst (run_to w t' (state_of (groupDragEnd x ?s'))) = []" for x t'
    using run_to_idle [of "state_of (groupDragEnd x ?s')" w t']
    by (simp add: groupDragEnd_timer)
  ultimately show ?thesis using r by simp
qed

theorem rebuild_due_while_dragging_is_lost_witness:
  "run_to (\<lambda>t. \<lparr>current_id = 1, current_tabs = [], tabGroups_get = (\<lambda>g. None)\<rparr>) 900
     \<lparr>mainList =
        [TabNode \<lparr>el_id = 5, el_group = NoGroup, el_active = True, el_pin = False,
                  el_dragging = True, el_drop_zone = True, el_drag_over = False\<rparr>,
         FakeBottom],
      WindowId = Some 1, dragging = True, fake_made = True,
      fake_drag_over = False, cache = Map.empty, timer = Some 500, clock = 100\<rparr>
   = ([500],
      \<lparr>mainList =
        [TabNode \<lparr>el_id = 5, el_group = NoGroup, el_active = True, el_pin = False,
                  el_dragging = True, el_drop_zone = True, el_drag_over = False\<rparr>,
         FakeBottom],
      WindowId = Some 1, dragging = True, fake_made = True,
      fake_drag_over = False, cache = Map.empty, timer = None, clock = 900\<rparr>)"
proof -
  let ?w = "\<lambda>t::nat. \<lparr>current_id = 1, current_tabs = [], tabGroups_get = (\<lambda>g. None)\<rparr>"
  let ?s = "\<lparr>mainList =
        [TabNode \<lparr>el_id = 5, el_group = NoGroup, el_active = True, el_pin = False,
                  el_dragging = True, el_drop_zone = True, el_drag_over = False\<rparr>,
         FakeBottom],
      WindowId = Some 1, dragging = True, fake_made = True,
      fake_drag_over = False, cache = Map.empty, timer = Some 500, clock = 100\<rparr>"
  have a: "dragging ?s" and b: "timer ?s = Some 500" and c: "(500::nat) \<le> 900"
    and d: "clock ?s \<le> 900"
    by simp_all
  from rebuild_due_while_dragging_is_lost [OF a b c d, of ?w] show ?thesis by simp
qed

subsection \<open>Group drag sessions\<close>

lemma groups_of_map_group_els:
  "groups_of (map (map_group_els f) ns) = map f (groups_of ns)"
  by (induction ns rule: groups_of.induct) simp_all

lemma groups_of_map_tab_els:
  "groups_of (map (map_tab_els f) ns) = groups_of ns"
  by (induction ns rule: groups_of.induct) simp_all

lemma groups_of_update_first_group:
  "(\<And>g. p (f g) = p g) \<Longrightarrow>
   map p (groups_of (update_first_group gid f ns)) = map p (groups_of ns)"
  by (induction ns rule: groups_of.induct) simp_all

lemma flat_map_tab_els: "flat (map (map_tab_els f) ns) = map f (flat ns)"
  by (induction ns rule: groups_of.induct) (simp_all add: flat_def)

lemma flat_map_group_els: "flat (map (map_group_els f) ns) = flat ns"
  by (induction ns rule: groups_of.induct) (simp_all add: flat_def)

lemma flat_update_first_group: "flat (update_first_group gid f ns) = flat ns"
  by (induction ns rule: groups_of.induct) (simp_all add: flat_def)

lemma groups_of_append: "groups_of (xs @ ys) = groups_of xs @ groups_of ys"
  by (induction xs rule: groups_of.induct) simp_all

lemma groups_of_no_fake: "groups_of (filter (\<lambda>n. \<not> is_fake n) ns) = groups_of ns"
  by (induction ns rule: groups_of.induct) simp_all

lemma flat_no_fake: "flat (filter (\<lambda>n. \<not> is_fake n) ns) = flat ns"
  by (induction ns rule: groups_of.induct) (simp_all add: flat_def)

lemma no_fake_left: "\<not> list_ex is_fake (filter (\<lambda>n. \<not> is_fake n) ns)"
  by (simp add: list_ex_iff)

lemma groupDragStart_groups:
  "groups_of (mainList (groupDragStart gid s)) =
     map (\<lambda>g. if gel_collapse g then g\<lparr>gel_mark := True\<rparr> else g)
       (map (\<lambda>g. g\<lparr>hdr_drop_zone := True\<rparr>)
          (groups_of (update_first_group gid
             (\<lambda>g. g\<lparr>hdr_dragging := True, hdr_collapse := True\<rparr>) (mainList s))))"
  by (simp add: groupDragStart_def groups_of_map_group_els groups_of_map_tab_els del: map_map)

lemma groupDragStart_marks:
  "map gel_mark (groups_of (mainList (groupDragStart gid s))) =
     map (\<lambda>g. gel_mark g \<or> gel_collapse g) (groups_of (mainList s))"
proof -
  let ?u = "groups_of (update_first_group gid
             (\<lambda>g. g\<lparr>hdr_dragging := True, hdr_collapse := True\<rparr>) (mainList s))"
  have "map gel_mark (groups_of (mainList (groupDragStart gid s))) =
        map (\<lambda>g. gel_mark g \<or> gel_collapse g) ?u"
    by (auto simp: groupDragStart_groups)
  also have "\<dots> = map (\<lambda>g. gel_mark g \<or> gel_collapse g) (groups_of (mainList s))"
    by (rule groups_of_update_first_group) simp
  finally show ?thesis .
qed

lemma groupDragStart_collapse:
  "map gel_collapse (groups_of (mainList (groupDragStart gid s))) =
     map gel_collapse (groups_of (mainList s))"
proof -
  have "map gel_collapse
          (groups_of (update_first_group gid
             (\<lambda>g. g\<lparr>hdr_dragging := True, hdr_collapse := True\<rparr>) (mainList s))) =
        map gel_collapse (groups_of (mainList s))"
    by (rule groups_of_update_first_group) simp
  then show ?thesis
    by (simp add: groupDragStart_groups o_def if_distrib [of gel_collapse] cong: if_cong)
qed

lemma groupDragStart_frame_groups:
  "groups_of (mainList (groupDragStart_frame s)) =
     map (\<lambda>g. g\<lparr>gel_collapse := True\<rparr>) (groups_of (mainList s))"
  by (simp add: groupDragStart_frame_def insertFakeBottom_def groups_of_map_group_els
      groups_of_append groups_of_no_fake)

lemma groupDragStart_frame_fake:
  "fake_made (groupDragStart_frame s) \<and> fake_attached (groupDragStart_frame s) \<and>
   dragging (groupDragStart_frame s) = dragging s"
  by (simp add: groupDragStart_frame_def insertFakeBottom_def fake_attached_def)

lemma groupDragEnd_groups:
  "groups_of (mainList (state_of (groupDragEnd gid s))) =
     map (\<lambda>g. if gel_mark g then g\<lparr>gel_mark := False\<rparr> else g\<lparr>gel_collapse := False\<rparr>)
       (map (\<lambda>g. g\<lparr>hdr_drop_zone := False, hdr_drag_over := False\<rparr>)
          (groups_of (update_first_group gid
             (\<lambda>g. g\<lparr>hdr_dragging := False, hdr_collapse := False\<rparr>) (mainList s))))"
  by (simp add: groupDragEnd_def remove_fakeBottom_def groups_of_map_group_els
      groups_of_map_tab_els groups_of_no_fake del: map_map)

lemma groupDragEnd_flat:
  "flat (mainList (state_of (groupDragEnd gid s))) =
     map (\<lambda>e. e\<lparr>el_drop_zone := False, el_drag_over := False\<rparr>) (flat (mainList s))"
  by (simp add: groupDragEnd_def remove_fakeBottom_def flat_map_tab_els flat_map_group_els
      flat_update_first_group flat_no_fake del: map_map)

lemma groupDragEnd_restores:
  "map gel_collapse (groups_of (mainList (state_of (groupDragEnd gid s)))) =
     map (\<lambda>g. gel_mark g \<and> gel_collapse g) (groups_of (mainList s))"
proof -
  let ?u = "groups_of (update_first_group gid
             (\<lambda>g. g\<lparr>hdr_dragging := False, hdr_collapse := False\<rparr>) (mainList s))"
  have "map gel_collapse (groups_of (mainList (state_of (groupDragEnd gid s)))) =
        map (\<lambda>g. gel_mark g \<and> gel_collapse g) ?u"
    by (auto simp: groupDragEnd_groups)
  also have "\<dots> = map (\<lambda>g. gel_mark g \<and> gel_collapse g) (groups_of (mainList s))"
    by (rule groups_of_update_first_group) simp
  finally show ?thesis .
qed

lemma groupDragEnd_clears:
  "\<not> dragging (state_of (groupDragEnd gid s)) \<and>
   list_all (\<lambda>e. \<not> el_drop_zone e \<and> \<not> el_drag_over e)
     (flat (mainList (state_of (groupDragEnd gid s)))) \<and>
   list_all (\<lambda>g. \<not> hdr_drop_zone g \<and> \<not> hdr_drag_over g \<and> \<not> gel_mark g)
     (groups_of (mainList (state_of (groupDragEnd gid s))))"
proof -
  have "\<not> dragging (state_of (groupDragEnd gid s))"
    by (simp add: groupDragEnd_def remove_fakeBottom_def)
  moreover have "list_all (\<lambda>e. \<not> el_drop_zone e \<and> \<not> el_drag_over e)
     (flat (mainList (state_of (groupDragEnd gid s))))"
    by (simp add: groupDragEnd_flat list_all_iff)
  moreover have "list_all (\<lambda>g. \<not> hdr_drop_zone g \<and> \<not> hdr_drag_over g \<and> \<not> gel_mark g)
     (groups_of (mainList (state_of (groupDragEnd gid s))))"
    by (auto simp: groupDragEnd_groups list_all_iff)
  ultimately show ?thesis by simp
qed

lemma groupDragEnd_fake:
  "fake_made s \<Longrightarrow>
   \<exists>s'. groupDragEnd gid s = Returned s' \<and> \<not> fake_attached s' \<and> \<not> fake_drag_over s'"
  by (simp add: groupDragEnd_def remove_fakeBottom_def fake_attached_def no_fake_left)

lemma groupDragStart_ids:
  "map gel_id (groups_of (mainList (groupDragStart gid s))) =
     map gel_id (groups_of (mainList s))"
proof -
  let ?u = "groups_of (update_first_group gid
             (\<lambda>g. g\<lparr>hdr_dragging := True, hdr_collapse := True\<rparr>) (mainList s))"
  have "map gel_id (groups_of (mainList (groupDragStart gid s))) = map gel_id ?u"
    by (auto simp: groupDragStart_groups)
  also have "\<dots> = map gel_id (groups_of (mainList s))"
    by (rule groups_of_update_first_group) simp
  finally show ?thesis .
qed

lemma groupDragEnd_ids:
  "map gel_id (groups_of (mainList (state_of (groupDragEnd gid s)))) =
     map gel_id (groups_of (mainList s))"
proof -
  let ?u = "groups_of (update_first_group gid
             (\<lambda>g. g\<lparr>hdr_dragging := False, hdr_collapse := False\<rparr>) (mainList s))"
  have "map gel_id (groups_of (mainList (state_of (groupDragEnd gid s)))) = map gel_id ?u"
    by (auto simp: groupDragEnd_groups)
  also have "\<dots> = map gel_id (groups_of (mainList s))"
    by (rule groups_of_update_first_group) simp
  finally show ?thesis .
qed

lemma groups_of_appendChild_current:
  "groups_of (appendChild_current e ns) = groups_of ns"
  by (induction ns rule: groups_of.induct) simp_all

lemma build_loop_unmarked:
  "build_loop fetch ts container lastGroupId c = (Some out, c') \<Longrightarrow>
   list_all (\<lambda>g. \<not> gel_mark g) (groups_of container) \<Longrightarrow>
   list_all (\<lambda>g. \<not> gel_mark g) (groups_of out)"
proof (induction ts arbitrary: container lastGroupId c)
  case Nil
  then show ?case by simp
next
  case (Cons u us)
  have keep: "list_all (\<lambda>g. \<not> gel_mark g) (groups_of (appendChild_current e ns))"
    if "list_all (\<lambda>g. \<not> gel_mark g) (groups_of ns)" for e ns
    using that by (simp add: groups_of_appendChild_current)
  show ?case
  proof (cases "groupId u \<noteq> NoGroup")
    case False
    with Cons.prems(1) have
      "build_loop fetch us (container @ [TabNode (createTab u)]) lastGroupId c = (Some out, c')"
      by simp
    from Cons.IH [OF this] Cons.prems(2) show ?thesis by (simp add: groups_of_append)
  next
    case grouped: True
    show ?thesis
    proof (cases "lastGroupId \<noteq> Some (groupId u)")
      case True
      obtain r c1 where look: "Groups_get fetch c (groupId u) = (r, c1)"
        by (cases "Groups_get fetch c (groupId u)")
      with Cons.prems(1) grouped True obtain x where r: "r = Some x"
        by (cases r) auto
      let ?k = "appendChild_current (createTab u) (container @ [GroupNode (createGroup x) []])"
      have run: "build_loop fetch us ?k (Some (groupId u)) c1 = (Some out, c')"
        using Cons.prems(1) grouped True look r by simp
      have "list_all (\<lambda>g. \<not> gel_mark g) (groups_of ?k)"
        using Cons.prems(2) by (intro keep) (simp add: groups_of_append createGroup_def)
      from Cons.IH [OF run this] show ?thesis .
    next
      case False
      let ?k = "appendChild_current (createTab u) container"
      have run: "build_loop fetch us ?k lastGroupId c = (Some out, c')"
        using Cons.prems(1) grouped False by simp
      from Cons.IH [OF run keep [OF Cons.prems(2)]] show ?thesis .
    qed
  qed
qed

lemma build_unmarked:
  "list_all (\<lambda>g. \<not> gel_mark g) (groups_of (mainList s)) \<Longrightarrow>
   list_all (\<lambda>g. \<not> gel_mark g) (groups_of (mainList (build h s)))"
proof -
  assume old: "list_all (\<lambda>g. \<not> gel_mark g) (groups_of (mainList s))"
  obtain r c' where run:
    "build_loop (tabGroups_get h) (current_tabs h) [] None (cache s) = (r, c')"
    by (cases "build_loop (tabGroups_get h) (current_tabs h) [] None (cache s)")
  show ?thesis
  proof (cases r)
    case None
    with run old show ?thesis by (simp add: build_def delayRebuild_def)
  next
    case (Some out)
    with run have "list_all (\<lambda>g. \<not> gel_mark g) (groups_of out)"
      using build_loop_unmarked [of "tabGroups_get h" "current_tabs h" "[]" None "cache s" out c']
      by simp
    with run Some old show ?thesis by (simp add: build_def)
  qed
qed

text \<open>
  Claim C9. A group drag that starts in a state where no group element carries a
  \<^verbatim>\<open>dataset.collapse\<close> mark (none is left by a build or by an earlier drag end).
  \<^verbatim>\<open>DnD.groupDragStart\<close> sets the session flag and marks exactly the group elements that
  are collapsed; its animation frame collapses every group element and attaches the fake
  bottom. \<^verbatim>\<open>DnD.groupDragEnd\<close> then returns a state in which the session flag is off, no
  tab element and no group header is a drop zone or carries \<^verbatim>\<open>drag-over\<close>, the fake
  bottom is detached and without \<^verbatim>\<open>drag-over\<close>, no mark is left, and the group elements,
  the same and in the same order, are collapsed exactly as they were before the drag
  started. From any state whatever, the drag end turns the session flag off and leaves a
  group element collapsed exactly when it was marked and collapsed.
\<close>

theorem group_drag_restores_collapsed:
  assumes clean: "list_all (\<lambda>g. \<not> gel_mark g) (groups_of (mainList s))"
  shows "dragging (groupDragStart gid s) \<and>
         map gel_mark (groups_of (mainList (groupDragStart gid s))) =
           map gel_collapse (groups_of (mainList s)) \<and>
         list_all gel_collapse
           (groups_of (mainList (groupDragStart_frame (groupDragStart gid s)))) \<and>
         fake_attached (groupDragStart_frame (groupDragStart gid s)) \<and>
         (\<exists>s3. groupDragEnd gid (groupDragStart_frame (groupDragStart gid s)) = Returned s3 \<and>
            \<not> dragging s3 \<and> \<not> fake_attached s3 \<and> \<not> fake_drag_over s3 \<and>
            list_all (\<lambda>e. \<not> el_drop_zone e \<and> \<not> el_drag_over e) (flat (mainList s3)) \<and>
            list_all (\<lambda>g. \<not> hdr_drop_zone g \<and> \<not> hdr_drag_over g \<and> \<not> gel_mark g)
              (groups_of (mainList s3)) \<and>
            map gel_id (groups_of (mainList s3)) = map gel_id (groups_of (mainList s)) \<and>
            map gel_collapse (groups_of (mainList s3)) =
              map gel_collapse (groups_of (mainList s))) \<and>
         (\<forall>s'. \<not> dragging (state_of (groupDragEnd gid s')) \<and>
            map gel_collapse (groups_of (mainList (state_of (groupDragEnd gid s')))) =
              map (\<lambda>g. gel_mark g \<and> gel_collapse g) (groups_of (mainList s')))"
proof -
  let ?s1 = "groupDragStart gid s"
  let ?s2 = "groupDragStart_frame ?s1"
  have d: "dragging ?s1" by (simp add: groupDragStart_def)
  have marks: "map gel_mark (groups_of (mainList ?s1)) = map gel_collapse (groups_of (mainList s))"
    using clean by (auto simp: groupDragStart_marks list_all_iff)
  have all: "list_all gel_collapse (groups_of (mainList ?s2))"
    by (simp add: groupDragStart_frame_groups list_all_iff)
  have fake: "fake_made ?s2" "fake_attached ?s2"
    using groupDragStart_frame_fake [of ?s1] by simp_all
  from groupDragEnd_fake [OF fake(1), of gid] obtain s3 where
    s3: "groupDragEnd gid ?s2 = Returned s3" "\<not> fake_attached s3" "\<not> fake_drag_over s3"
    by blast
  then have st: "state_of (groupDragEnd gid ?s2) = s3" by simp
  have clears: "\<not> dragging s3 \<and>
      list_all (\<lambda>e. \<not> el_drop_zone e \<and> \<not> el_drag_over e) (flat (mainList s3)) \<and>
      list_all (\<lambda>g. \<not> hdr_drop_zone g \<and> \<not> hdr_drag_over g \<and> \<not> gel_mark g)
        (groups_of (mainList s3))"
    using groupDragEnd_clears [of gid ?s2] st by simp
  have ids: "map gel_id (groups_of (mainList s3)) = map gel_id (groups_of (mainList s))"
    using groupDragEnd_ids [of gid ?s2] st
    by (simp add: groupDragStart_frame_groups groupDragStart_ids o_def)
  have "map gel_collapse (groups_of (mainList s3)) =
        map (\<lambda>g. gel_mark g \<and> gel_collapse g) (groups_of (mainList ?s2))"
    using groupDragEnd_restores [of gid ?s2] st by simp
  also have "\<dots> = map gel_mark (groups_of (mainList ?s1))"
    by (simp add: groupDragStart_frame_groups o_def)
  finally have restored:
    "map gel_collapse (groups_of (mainList s3)) = map gel_collapse (groups_of (mainList s))"
    using marks by simp
  have general: "\<not> dragging (state_of (groupDragEnd gid s')) \<and>
      map gel_collapse (groups_of (mainList (state_of (groupDragEnd gid s')))) =
        map (\<lambda>g. gel_mark g \<and> gel_collapse g) (groups_of (mainList s'))" for s'
    using groupDragEnd_clears [of gid s'] groupDragEnd_restores [of gid s'] by simp
  from d marks all fake(2) s3 clears ids restored general show ?thesis by blast
qed

theorem group_drag_restores_collapsed_witness:
  "map gel_collapse (groups_of (mainList (state_of (groupDragEnd 7
     (groupDragStart_frame (groupDragStart 7
        \<lparr>mainList =
           [GroupNode
              (createGroup \<lparr>group_id = 7, group_windowId = 1, title = ''a'', color = ''blue'',
                             collapsed = False\<rparr>)
              [createTab \<lparr>tab_id = 2, windowId = 1, index = 0, groupId = 7, pinned = False,
                          active = True\<rparr>],
            GroupNode
              (createGroup \<lparr>group_id = 8, group_windowId = 1, title = ''b'', color = ''red'',
                             collapsed = True\<rparr>)
              [createTab \<lparr>tab_id = 3, windowId = 1, index = 1, groupId = 8, pinned = False,
                          active = False\<rparr>]],
         WindowId = Some 1, dragging = False, fake_made = False,
         fake_drag_over = False, cache = Map.empty, timer = None, clock = 0\<rparr>)))))) =
   [False, True]"
proof -
  let ?s = "\<lparr>mainList =
           [GroupNode
              (createGroup \<lparr>group_id = 7, group_windowId = 1, title = ''a'', color = ''blue'',
                             collapsed = False\<rparr>)
              [createTab \<lparr>tab_id = 2, windowId = 1, index = 0, groupId = 7, pinned = False,
                          active = True\<rparr>],
            GroupNode
              (createGroup \<lparr>group_id = 8, group_windowId = 1, title = ''b'', color = ''red'',
                             collapsed = True\<rparr>)
              [createTab \<lparr>tab_id = 3, windowId = 1, index = 1, groupId = 8, pinned = False,
                          active = False\<rparr>]],
         WindowId = Some 1, dragging = False, fake_made = False,
         fake_drag_over = False, cache = Map.empty, timer = None, clock = 0\<rparr>"
  have clean: "list_all (\<lambda>g. \<not> gel_mark g) (groups_of (mainList ?s))"
    by (simp add: createGroup_def)
  from group_drag_restores_collapsed [OF clean, of 7] obtain s3 where
    "groupDragEnd 7 (groupDragStart_frame (groupDragStart 7 ?s)) = Returned s3"
    "map gel_collapse (groups_of (mainList s3)) = map gel_collapse (groups_of (mainList ?s))"
    by blast
  then show ?thesis by (simp add: createGroup_def)
qed

subsection \<open>Drops\<close>

lemma first_index_append:
  "first_index P (xs @ ys) =
     (case first_index P xs of
        Some k \<Rightarrow> Some k
      | None \<Rightarrow> map_option (\<lambda>k. length xs + k) (first_index P ys))"
  by (induction xs; cases "first_index P ys") (auto split: option.splits)

lemma flat_index_shift:
  "flat_index (shift p) (n # ns) = int (length (tabs_of n)) + flat_index p ns"
  by (cases p) (simp_all add: flat_index_def flat_Cons)

lemma locate_tab_flat:
  "(case locate_tab tid ns of
      None \<Rightarrow> first_index (\<lambda>e. el_id e = tid) (flat ns) = None
    | Some p \<Rightarrow> 0 \<le> flat_index p ns \<and>
        first_index (\<lambda>e. el_id e = tid) (flat ns) = Some (nat (flat_index p ns)))"
proof (induction ns rule: locate_tab.induct)
  case (1 tid)
  show ?case by (simp add: flat_def)
next
  case (2 tid t ns)
  show ?case
  proof (cases "el_id t = tid")
    case True
    then show ?thesis by (simp add: flat_Cons flat_index_def flat_def)
  next
    case False
    show ?thesis
    proof (cases "locate_tab tid ns")
      case None
      with 2 False show ?thesis by (simp add: flat_Cons)
    next
      case (Some p)
      with 2 False Some show ?thesis
        by (simp add: flat_Cons flat_index_shift nat_add_distrib)
    qed
  qed
next
  case (3 tid g body ns)
  show ?case
  proof (cases "first_index (\<lambda>e. el_id e = tid) body")
    case (Some j)
    then show ?thesis
      by (simp add: flat_Cons first_index_append flat_index_def flat_def)
  next
    case None
    show ?thesis
    proof (cases "locate_tab tid ns")
      case n: None
      with 3 None show ?thesis by (simp add: flat_Cons first_index_append)
    next
      case (Some p)
      with 3 None Some show ?thesis
        by (simp add: flat_Cons first_index_append flat_index_shift nat_add_distrib)
    qed
  qed
next
  case (4 tid ns)
  then show ?case
    by (cases "locate_tab tid ns") (simp_all add: flat_Cons flat_index_shift)
qed

lemma newIndex_js_indexOf:
  "(case locate_tab tid ns of Some p \<Rightarrow> flat_index p ns | None \<Rightarrow> - 1) =
     js_indexOf (\<lambda>e. el_id e = tid) (flat ns)"
  using locate_tab_flat [of tid ns]
  by (cases "locate_tab tid ns") (simp_all add: js_indexOf_def)

lemma first_index_less: "first_index P xs = Some i \<Longrightarrow> i < length xs \<and> P (xs ! i)"
  by (induction xs arbitrary: i) (auto split: if_splits)

lemma first_index_None: "first_index P xs = None \<longleftrightarrow> (\<forall>x \<in> set xs. \<not> P x)"
  by (induction xs) auto

lemma detach_in_split:
  "detach_in tid es = Some (e, r) \<Longrightarrow>
   \<exists>xs ys. es = xs @ e # ys \<and> r = xs @ ys \<and> el_id e = tid \<and> tid \<notin> el_id ` set xs"
proof (induction es arbitrary: r)
  case Nil
  then show ?case by simp
next
  case (Cons x es)
  show ?case
  proof (cases "el_id x = tid")
    case True
    with Cons.prems have "e = x" "r = es" by simp_all
    with True show ?thesis by (intro exI [of _ "[]"] exI [of _ es] conjI) simp_all
  next
    case False
    with Cons.prems obtain r' where r': "detach_in tid es = Some (e, r')" "r = x # r'"
      by auto
    from Cons.IH [OF r'(1)] obtain xs ys where
      "es = xs @ e # ys" "r' = xs @ ys" "el_id e = tid" "tid \<notin> el_id ` set xs"
      by blast
    with False r' show ?thesis
      by (intro exI [of _ "x # xs"] exI [of _ ys] conjI) auto
  qed
qed

lemma detach_in_None: "detach_in tid es = None \<longleftrightarrow> tid \<notin> el_id ` set es"
  by (induction es) auto

lemma detach_split:
  "detach tid ns = Some (e, rest) \<Longrightarrow>
   \<exists>xs ys. flat ns = xs @ e # ys \<and> flat rest = xs @ ys \<and> el_id e = tid \<and>
     tid \<notin> el_id ` set xs"
proof (induction tid ns arbitrary: rest rule: detach.induct)
  case (1 tid)
  then show ?case by simp
next
  case (2 tid t ns)
  show ?case
  proof (cases "el_id t = tid")
    case True
    with 2(2) have "e = t" "rest = ns" by simp_all
    with True show ?thesis
      by (intro exI [of _ "[]"] exI [of _ "flat ns"] conjI) (simp_all add: flat_Cons)
  next
    case False
    with 2(2) obtain r' where r': "detach tid ns = Some (e, r')" "rest = TabNode t # r'"
      by auto
    from 2(1) [OF False r'(1)] obtain xs ys where
      "flat ns = xs @ e # ys" "flat r' = xs @ ys" "el_id e = tid" "tid \<notin> el_id ` set xs"
      by blast
    with False r' show ?thesis
      by (intro exI [of _ "t # xs"] exI [of _ ys] conjI) (auto simp: flat_Cons)
  qed
next
  case (3 tid g body ns)
  show ?case
  proof (cases "detach_in tid body")
    case None
    with 3(2) obtain r' where r': "detach tid ns = Some (e, r')" "rest = GroupNode g body # r'"
      by auto
    from 3(1) [OF None r'(1)] obtain xs ys where
      "flat ns = xs @ e # ys" "flat r' = xs @ ys" "el_id e = tid" "tid \<notin> el_id ` set xs"
      by blast
    moreover from None have "tid \<notin> el_id ` set body" by (simp add: detach_in_None)
    ultimately show ?thesis using r'
      by (intro exI [of _ "body @ xs"] exI [of _ ys] conjI) (auto simp: flat_Cons)
  next
    case (Some p)
    then obtain x body' where p: "detach_in tid body = Some (x, body')" by (cases p) simp
    with 3(2) have r: "e = x" "rest = GroupNode g body' # ns" by simp_all
    from detach_in_split [OF p] obtain xs ys where
      "body = xs @ x # ys" "body' = xs @ ys" "el_id x = tid" "tid \<notin> el_id ` set xs"
      by blast
    with r show ?thesis
      by (intro exI [of _ xs] exI [of _ "ys @ flat ns"] conjI) (simp_all add: flat_Cons)
  qed
next
  case (4 tid ns)
  from 4(2) obtain r' where r': "detach tid ns = Some (e, r')" "rest = FakeBottom # r'"
    by auto
  from 4(1) [OF r'(1)] r'(2) show ?case by (simp add: flat_Cons)
qed

lemma locate_tab_None: "locate_tab tid ns = None \<longleftrightarrow> tid \<notin> el_id ` set (flat ns)"
  using locate_tab_flat [of tid ns]
  by (cases "locate_tab tid ns") (auto simp: first_index_None dest: first_index_less)

lemma detach_in_Some: "detach_in tid es = Some (e, r) \<Longrightarrow> tid \<in> el_id ` set es"
  using detach_in_None [of tid es] by auto

lemma detach_None: "detach tid ns = None \<longleftrightarrow> tid \<notin> el_id ` set (flat ns)"
  by (induction tid ns rule: detach.induct)
     (auto simp: flat_Cons flat_Nil detach_in_None split: option.splits dest: detach_in_Some)

lemma detach_keeps_nodes:
  assumes "\<And>t. \<not> P (TabNode t)" and "\<And>g b b'. P (GroupNode g b) = P (GroupNode g b')"
  shows "detach tid ns = Some (e, rest) \<Longrightarrow> list_ex P rest = list_ex P ns"
proof (induction tid ns arbitrary: rest rule: detach.induct)
  case (1 tid)
  then show ?case by simp
next
  case (2 tid t ns)
  then show ?case using assms(1) by (auto split: if_splits)
next
  case (3 tid g body ns)
  show ?case
  proof (cases "detach_in tid body")
    case None
    with 3 show ?thesis by auto
  next
    case (Some p)
    then obtain x body' where "detach_in tid body = Some (x, body')" by (cases p) simp
    with 3(2) have "rest = GroupNode g body' # ns" by simp
    with assms(2) [of g body body'] show ?thesis by simp
  qed
next
  case (4 tid ns)
  then show ?case by auto
qed

lemma first_index_ex: "(\<exists>k. first_index P xs = Some k) \<longleftrightarrow> list_ex P xs"
  by (induction xs) auto

lemma detach_keeps_target:
  assumes d: "detach tid ns = Some (e, rest)"
    and p: "locate_tab tid ns = Some p"
    and q0: "locate tg ns = Some q0"
    and ne: "p \<noteq> q0"
  shows "\<exists>q. locate tg rest = Some q"
proof (cases tg)
  case (OnTab t)
  with p q0 ne have t: "t \<noteq> tid" by (auto simp: locate_def)
  from q0 OnTab have "t \<in> el_id ` set (flat ns)"
    using locate_tab_None [of t ns] by (auto simp: locate_def)
  moreover from detach_split [OF d] obtain xs ys where
    "flat ns = xs @ e # ys" "flat rest = xs @ ys" "el_id e = tid" by blast
  ultimately have "t \<in> el_id ` set (flat rest)" using t by auto
  then have "locate_tab t rest \<noteq> None" by (simp add: locate_tab_None)
  with OnTab show ?thesis by (auto simp: locate_def)
next
  case (OnGroup g)
  have "list_ex (is_group_with g) rest = list_ex (is_group_with g) ns"
    by (rule detach_keeps_nodes [OF _ _ d]) simp_all
  moreover from q0 OnGroup have "first_index (is_group_with g) ns \<noteq> None"
    by (auto simp: locate_def locate_group_def)
  ultimately have "first_index (is_group_with g) rest \<noteq> None"
    by (simp add: first_index_ex)
  with OnGroup show ?thesis by (auto simp: locate_def locate_group_def)
next
  case OnFake
  have "list_ex is_fake rest = list_ex is_fake ns"
    by (rule detach_keeps_nodes [OF _ _ d]) simp_all
  moreover from q0 OnFake have "first_index is_fake ns \<noteq> None"
    by (auto simp: locate_def)
  ultimately have "first_index is_fake rest \<noteq> None"
    by (simp add: first_index_ex)
  with OnFake show ?thesis by (auto simp: locate_def)
qed


lemma detach_in_insert:
  "detach_in tid es = Some (e, r) \<Longrightarrow>
   \<exists>j. first_index (\<lambda>x. el_id x = tid) es = Some j \<and> take j r @ e # drop j r = es"
proof (induction es arbitrary: r)
  case Nil
  then show ?case by simp
next
  case (Cons x es)
  show ?case
  proof (cases "el_id x = tid")
    case True
    with Cons.prems show ?thesis by simp
  next
    case False
    with Cons.prems obtain r' where r': "detach_in tid es = Some (e, r')" "r = x # r'"
      by auto
    from Cons.IH [OF r'(1)] obtain j where
      "first_index (\<lambda>x. el_id x = tid) es = Some j" "take j r' @ e # drop j r' = es"
      by blast
    with False r'(2) show ?thesis by simp
  qed
qed

lemma insert_at_shift: "insert_at (shift p) e (n # ns) = n # insert_at p e ns"
  by (cases p) (simp_all split: node.splits)

lemma detach_insert:
  "detach tid ns = Some (e, rest) \<Longrightarrow> locate_tab tid ns = Some p \<Longrightarrow>
   insert_at p e rest = ns"
proof (induction tid ns arbitrary: rest p rule: detach.induct)
  case (1 tid)
  then show ?case by simp
next
  case (2 tid t ns)
  show ?case
  proof (cases "el_id t = tid")
    case True
    with 2(2,3) show ?thesis by auto
  next
    case False
    with 2(2) obtain r' where r': "detach tid ns = Some (e, r')" "rest = TabNode t # r'"
      by auto
    from 2(3) False obtain p' where p': "locate_tab tid ns = Some p'" "p = shift p'"
      by auto
    from 2(1) [OF False r'(1) p'(1)] r'(2) p'(2) show ?thesis
      by (simp add: insert_at_shift)
  qed
next
  case (3 tid g body ns)
  show ?case
  proof (cases "detach_in tid body")
    case None
    then have n: "first_index (\<lambda>x. el_id x = tid) body = None"
      by (auto simp: detach_in_None first_index_None)
    from 3(2) None obtain r' where r': "detach tid ns = Some (e, r')" "rest = GroupNode g body # r'"
      by auto
    from 3(3) n obtain p' where p': "locate_tab tid ns = Some p'" "p = shift p'"
      by auto
    from 3(1) [OF None r'(1) p'(1)] r'(2) p'(2) show ?thesis
      by (simp add: insert_at_shift)
  next
    case (Some y)
    then obtain x body' where d: "detach_in tid body = Some (x, body')" by (cases y) simp
    with 3(2) have r: "e = x" "rest = GroupNode g body' # ns" by simp_all
    from detach_in_insert [OF d] obtain j where
      j: "first_index (\<lambda>x. el_id x = tid) body = Some j" "take j body' @ x # drop j body' = body"
      by blast
    with 3(3) have "p = Body 0 j" by simp
    with r j(2) show ?thesis by simp
  qed
next
  case (4 tid ns)
  from 4(2) obtain r' where r': "detach tid ns = Some (e, r')" "rest = FakeBottom # r'"
    by auto
  from 4(3) obtain p' where p': "locate_tab tid ns = Some p'" "p = shift p'"
    by auto
  from 4(1) [OF r'(1) p'(1)] r'(2) p'(2) show ?case
    by (simp add: insert_at_shift)
qed

lemma shift_Root: "shift p = Root k \<longleftrightarrow> (\<exists>k'. k = Suc k' \<and> p = Root k')"
  by (cases p) auto

lemma shift_Body: "shift p = Body k j \<longleftrightarrow> (\<exists>k'. k = Suc k' \<and> p = Body k' j)"
  by (cases p) auto

lemma locate_tab_Root: "locate_tab t ns = Some (Root k) \<Longrightarrow> k < length ns"
  by (induction t ns arbitrary: k rule: locate_tab.induct)
     (auto simp: shift_Root split: if_splits option.splits)

lemma locate_tab_Body:
  "locate_tab t ns = Some (Body k j) \<Longrightarrow>
   k < length ns \<and> (\<exists>g body. ns ! k = GroupNode g body \<and> j < length body)"
  by (induction t ns arbitrary: k rule: locate_tab.induct)
     (auto simp: shift_Body split: if_splits option.splits dest: first_index_less)

lemma locate_Root: "locate tg ns = Some (Root k) \<Longrightarrow> k < length ns"
  by (cases tg) (auto simp: locate_def locate_group_def dest: first_index_less locate_tab_Root)

lemma locate_Body:
  "locate tg ns = Some (Body k j) \<Longrightarrow>
   (\<exists>t. tg = OnTab t) \<and> k < length ns \<and>
   (\<exists>g body. ns ! k = GroupNode g body \<and> j < length body)"
  by (cases tg) (auto simp: locate_def locate_group_def dest: locate_tab_Body)

lemma locate_OnGroup: "locate (OnGroup g) ns = Some q \<Longrightarrow> \<exists>k. q = Root k"
  by (auto simp: locate_def locate_group_def)

lemma flat_take_drop: "flat ns = flat (take k ns) @ flat (drop k ns)"
  by (simp add: flat_append [symmetric])

lemma insert_at_Root_flat:
  assumes "k \<le> length ns"
  shows "\<exists>us vs. flat ns = us @ vs \<and> flat (insert_at (Root k) e ns) = us @ e # vs \<and>
           flat_index (Root k) (insert_at (Root k) e ns) = int (length us)"
  using assms
  by (intro exI [of _ "flat (take k ns)"] exI [of _ "flat (drop k ns)"] conjI)
     (simp_all add: flat_append flat_Cons flat_index_def flat_take_drop [symmetric])

lemma insert_at_Body_flat:
  assumes "k < length ns" and "ns ! k = GroupNode g body" and "j < length body"
  shows "\<exists>us vs. flat ns = us @ vs \<and> flat (insert_at (Body k j) e ns) = us @ e # vs \<and>
           flat_index (Body k j) (insert_at (Body k j) e ns) = int (length us)"
proof -
  have ns: "ns = take k ns @ GroupNode g body # drop (Suc k) ns"
    using assms(1,2) by (metis id_take_nth_drop)
  have ml: "insert_at (Body k j) e ns =
      take k ns @ GroupNode g (take j body @ e # drop j body) # drop (Suc k) ns"
    using assms(1,2) by (simp add: upd_conv_take_nth_drop)
  have "flat ns = flat (take k ns) @ body @ flat (drop (Suc k) ns)"
    by (subst ns) (simp add: flat_append flat_Cons)
  then have 1: "flat ns = (flat (take k ns) @ take j body) @ (drop j body @ flat (drop (Suc k) ns))"
    by simp
  have 2: "flat (insert_at (Body k j) e ns) =
      (flat (take k ns) @ take j body) @ e # (drop j body @ flat (drop (Suc k) ns))"
    by (subst ml) (simp add: flat_append flat_Cons)
  have "take k (insert_at (Body k j) e ns) = take k ns"
    using assms(1,2) by simp
  then have 3: "flat_index (Body k j) (insert_at (Body k j) e ns) =
      int (length (flat (take k ns) @ take j body))"
    using assms(3) by (simp add: flat_index_def)
  from 1 2 3 show ?thesis by blast
qed

text \<open>
  The fake bottom is the last child of the main list only until \<^verbatim>\<open>Tabs.insertTab\<close> appends
  a tab that is created during the drag. A drop on the fake bottom then puts the tab
  element in front of the fake bottom, not at the end: with T1, T2, the fake bottom and T9
  in the main list, T1 goes to index 1 and T9 to index 2, and T2 is not moved, since the
  fake bottom is its next sibling.
\<close>

lemma drops_with_a_tab_after_the_fake_bottom:
  "(let s = \<lparr>mainList =
               [TabNode \<lparr>el_id = 1, el_group = - 1, el_active = False, el_pin = False,
                     el_dragging = False, el_drop_zone = True, el_drag_over = False\<rparr>,
                TabNode \<lparr>el_id = 2, el_group = - 1, el_active = False, el_pin = False,
                     el_dragging = False, el_drop_zone = True, el_drag_over = False\<rparr>,
                FakeBottom,
                TabNode \<lparr>el_id = 9, el_group = - 1, el_active = False, el_pin = False,
                     el_dragging = False, el_drop_zone = True, el_drag_over = False\<rparr>],
             WindowId = Some 1, dragging = True, fake_made = True, fake_drag_over = True,
             cache = Map.empty, timer = None, clock = 0\<rparr>
    in calls_of (DnD_drop (\<lambda>a. False) (\<lambda>g. None) 0 (DragTab 1) OnFake s) =
         [TabsMove 1 1, Build] \<and>
       (case DnD_drop (\<lambda>a. False) (\<lambda>g. None) 0 (DragTab 2) OnFake s of
          Rejected \<Rightarrow> True | _ \<Rightarrow> False) \<and>
       calls_of (DnD_drop (\<lambda>a. False) (\<lambda>g. None) 0 (DragTab 9) OnFake s) =
         [TabsMove 9 2, Build])"
  by code_simp

lemma tab_created_during_drag_follows_fake_bottom:
  "map is_fake
     (mainList
        (onCreated \<lparr>tab_id = 9, windowId = 1, index = 4, groupId = NoGroup, pinned = False,
                    active = False\<rparr> scenario)) =
     [False, False, False, True, False]"
  by code_simp

text \<open>
  Claim C1, at an input where it fails. In the scenario, T4 is dropped on T3, a tab of G1.
  With every call succeeding, \<^verbatim>\<open>chrome.tabs.move\<close> comes first and \<^verbatim>\<open>chrome.tabs.group\<close>
  second, not the other way round; and when the host rejects the move, the group call is
  never made.
\<close>

theorem tab_drop_moves_before_grouping_counterexample:
  "calls_of (DnD_drop (\<lambda>a. False) (\<lambda>g. None) 0 (DragTab 4) (OnTab 3) scenario) =
     [TabsMove 4 2, TabsGroup (Some 7) [4], Build] \<and>
   calls_of (DnD_drop (\<lambda>a. False) (\<lambda>g. None) 0 (DragTab 4) (OnTab 3) scenario) \<noteq>
     [TabsGroup (Some 7) [4], TabsMove 4 2, Build] \<and>
   calls_of (DnD_drop (\<lambda>a. a = TabsMove 4 2) (\<lambda>g. None) 0 (DragTab 4) (OnTab 3) scenario) =
     [TabsMove 4 2, Build]"
  by code_simp

text \<open>
  Claim C1, amended. Let the dragged tab have an element and the drop target be another
  element of the document. \<^verbatim>\<open>DnD.drop\<close> does nothing when the target is the next sibling of
  the dragged element; otherwise \<^verbatim>\<open>DnD.moveTab\<close> runs. That function takes the tab element
  from where it is and puts it right in front of the drop target, in the main list or in
  the group body that holds the target; every other element stays where it is. It then
  calls \<^verbatim>\<open>chrome.tabs.move\<close> first, with the index that the element now has among the rendered
  tab elements. Only if the move succeeded one more call may follow: \<^verbatim>\<open>chrome.tabs.ungroup\<close>
  when the drop target is a group element, or when the tab element, now a child of the
  main list, follows a group element; otherwise \<^verbatim>\<open>chrome.tabs.group\<close> with the group tag
  of the drop target when that lies in a group body (and the tag is not 0). The last thing
  done, in every case, is the call of \<^verbatim>\<open>Tabs.build()\<close>.
\<close>

theorem tab_drop_moves_then_regroups_then_builds:
  assumes p: "locate_tab tid (mainList s) = Some p"
    and q0: "locate tg (mainList s) = Some q0"
    and ne: "p \<noteq> q0"
  shows "\<exists>e rest q ml i calls xs ys us vs.
     detach tid (mainList s) = Some (e, rest) \<and> locate tg rest = Some q \<and>
     moveTab fails tid tg s = Some (s\<lparr>mainList := ml\<rparr>, TabsMove tid i # calls @ [Build]) \<and>
     DnD_drop fails fetch n (DragTab tid) tg s =
       (if next_sibling p (mainList s) = Some q0 then Rejected
        else TabDropped (s\<lparr>mainList := ml\<rparr>) (TabsMove tid i # calls @ [Build])) \<and>
     el_id e = tid \<and> insert_at p e rest = mainList s \<and> tid \<notin> el_id ` set xs \<and>
     flat (mainList s) = xs @ e # ys \<and> flat rest = xs @ ys \<and>
     flat rest = us @ vs \<and> flat ml = us @ e # vs \<and> i = int (length us) \<and>
     (case q of
        Root k \<Rightarrow> k < length rest \<and> ml = take k rest @ TabNode e # drop k rest
      | Body k j \<Rightarrow>
          k < length rest \<and>
          (\<exists>g body. rest ! k = GroupNode g body \<and> j < length body \<and>
             ml = rest[k := GroupNode g (take j body @ e # drop j body)])) \<and>
     calls =
       (if fails (TabsMove tid i) then []
        else if (\<exists>g. tg = OnGroup g) \<or> (\<exists>k. q = Root (Suc k) \<and> is_group (ml ! k))
        then [TabsUngroup [tid]]
        else (case q of
                Body k j \<Rightarrow>
                  if el_group (body_at k rest ! j) \<noteq> 0
                  then [TabsGroup (Some (el_group (body_at k rest ! j))) [tid]] else []
              | Root k \<Rightarrow> []))"
proof -
  from p have "detach tid (mainList s) \<noteq> None"
    using locate_tab_None [of tid "mainList s"] by (simp add: detach_None)
  then obtain e rest where d: "detach tid (mainList s) = Some (e, rest)" by auto
  from detach_keeps_target [OF d p q0 ne] obtain q where q: "locate tg rest = Some q" by blast
  from detach_split [OF d] obtain xs ys where
    xy: "flat (mainList s) = xs @ e # ys" "flat rest = xs @ ys" "el_id e = tid"
      "tid \<notin> el_id ` set xs"
    by blast
  define ml where "ml = insert_at q e rest"
  define i where "i = flat_index q ml"
  define X where "X =
       (if (\<exists>g. tg = OnGroup g) \<or> (\<exists>k. q = Root (Suc k) \<and> is_group (ml ! k))
        then [TabsUngroup [tid]]
        else (case q of
                Body k j \<Rightarrow>
                  if el_group (body_at k rest ! j) \<noteq> 0
                  then [TabsGroup (Some (el_group (body_at k rest ! j))) [tid]] else []
              | Root k \<Rightarrow> []))"
  define calls where "calls = (if fails (TabsMove tid i) then [] else X)"
  have place: "case q of
        Root k \<Rightarrow> k < length rest \<and> ml = take k rest @ TabNode e # drop k rest
      | Body k j \<Rightarrow>
          k < length rest \<and>
          (\<exists>g body. rest ! k = GroupNode g body \<and> j < length body \<and>
             ml = rest[k := GroupNode g (take j body @ e # drop j body)])"
  proof (cases q)
    case (Root k)
    with locate_Root [of tg rest k] q show ?thesis by (simp add: ml_def)
  next
    case (Body k j)
    with locate_Body [of tg rest k j] q show ?thesis by (auto simp: ml_def)
  qed
  have "\<exists>us vs. flat rest = us @ vs \<and> flat ml = us @ e # vs \<and> i = int (length us)"
  proof (cases q)
    case (Root k)
    with locate_Root [of tg rest k] q have "k \<le> length rest" by simp
    from insert_at_Root_flat [OF this, of e] Root show ?thesis by (simp add: ml_def i_def)
  next
    case (Body k j)
    with locate_Body [of tg rest k j] q obtain g body where
      "k < length rest" "rest ! k = GroupNode g body" "j < length body" by auto
    from insert_at_Body_flat [OF this, of e] Body show ?thesis by (simp add: ml_def i_def)
  qed
  then obtain us vs where uv: "flat rest = us @ vs" "flat ml = us @ e # vs" "i = int (length us)"
    by blast
  have after: "isAfterGroup q ml = (\<exists>k. q = Root (Suc k) \<and> is_group (ml ! k))"
  proof (cases q)
    case (Root k)
    with locate_Root [of tg rest k] q have "k < length rest" by simp
    with Root show ?thesis by (cases k) (auto simp: isAfterGroup_def ml_def)
  next
    case (Body k j)
    then show ?thesis by (simp add: isAfterGroup_def)
  qed
  have tag: "group_tag_at q rest =
      (case q of Body k j \<Rightarrow> Some (el_group (body_at k rest ! j)) | Root k \<Rightarrow> None)"
  proof (cases q)
    case (Root k)
    then show ?thesis by (simp add: group_tag_at_def)
  next
    case (Body k j)
    with locate_Body [of tg rest k j] q obtain g body where
      "k < length rest" "rest ! k = GroupNode g body" "j < length body" by auto
    with Body show ?thesis by (simp add: group_tag_at_def body_at_def item_def)
  qed
  have X: "(if (case tg of OnGroup g \<Rightarrow> True | _ \<Rightarrow> False) \<or>
               (\<not> (case tg of OnGroup g \<Rightarrow> True | _ \<Rightarrow> False) \<and>
                \<not> (\<not> (case tg of OnGroup g \<Rightarrow> True | _ \<Rightarrow> False) \<and> isInGroup q) \<and>
                isAfterGroup q ml)
            then [TabsUngroup [tid]]
            else (case (if \<not> (case tg of OnGroup g \<Rightarrow> True | _ \<Rightarrow> False) \<and> isInGroup q
                        then group_tag_at q rest else None) of
                    Some g \<Rightarrow> if g \<noteq> 0 then [TabsGroup (Some g) [tid]] else []
                  | None \<Rightarrow> [])) = X"
  proof (cases tg)
    case (OnGroup g)
    then show ?thesis by (simp add: X_def)
  next
    case (OnTab t)
    then show ?thesis
      by (simp add: X_def after tag isInGroup_def split: place.splits)
  next
    case OnFake
    then show ?thesis
      by (simp add: X_def after tag isInGroup_def split: place.splits)
  qed
  have iss: "issue fails X = X"
    by (simp add: X_def split: place.splits)
  have m: "moveTab fails tid tg s =
      Some (s\<lparr>mainList := ml\<rparr>, TabsMove tid i # calls @ [Build])"
    unfolding moveTab_def d q option.case prod.case Let_def ml_def [symmetric] i_def [symmetric] X
    by (simp add: calls_def iss)
  have dr: "DnD_drop fails fetch n (DragTab tid) tg s =
       (if next_sibling p (mainList s) = Some q0 then Rejected
        else TabDropped (s\<lparr>mainList := ml\<rparr>) (TabsMove tid i # calls @ [Build]))"
    using ne by (simp add: DnD_drop_def p q0 m)
  note old_place = detach_insert [OF d p]
  from d q m dr xy uv place old_place
  have "detach tid (mainList s) = Some (e, rest) \<and> locate tg rest = Some q \<and>
     moveTab fails tid tg s = Some (s\<lparr>mainList := ml\<rparr>, TabsMove tid i # calls @ [Build]) \<and>
     DnD_drop fails fetch n (DragTab tid) tg s =
       (if next_sibling p (mainList s) = Some q0 then Rejected
        else TabDropped (s\<lparr>mainList := ml\<rparr>) (TabsMove tid i # calls @ [Build])) \<and>
     el_id e = tid \<and> insert_at p e rest = mainList s \<and> tid \<notin> el_id ` set xs \<and>
     flat (mainList s) = xs @ e # ys \<and> flat rest = xs @ ys \<and>
     flat rest = us @ vs \<and> flat ml = us @ e # vs \<and> i = int (length us) \<and>
     (case q of
        Root k \<Rightarrow> k < length rest \<and> ml = take k rest @ TabNode e # drop k rest
      | Body k j \<Rightarrow>
          k < length rest \<and>
          (\<exists>g body. rest ! k = GroupNode g body \<and> j < length body \<and>
             ml = rest[k := GroupNode g (take j body @ e # drop j body)])) \<and>
     calls =
       (if fails (TabsMove tid i) then []
        else if (\<exists>g. tg = OnGroup g) \<or> (\<exists>k. q = Root (Suc k) \<and> is_group (ml ! k))
        then [TabsUngroup [tid]]
        else (case q of
                Body k j \<Rightarrow>
                  if el_group (body_at k rest ! j) \<noteq> 0
                  then [TabsGroup (Some (el_group (body_at k rest ! j))) [tid]] else []
              | Root k \<Rightarrow> []))"
    unfolding calls_def X_def by simp
  then show ?thesis by blast
qed


theorem tab_drop_moves_then_regroups_then_builds_witness:
  "DnD_drop (\<lambda>a. False) (\<lambda>g. None) 0 (DragTab 1) OnFake
     \<lparr>mainList =
          [TabNode
             \<lparr>el_id = 1, el_group = - 1, el_active = False, el_pin = False,
              el_dragging = True, el_drop_zone = True, el_drag_over = False\<rparr>,
           GroupNode
             \<lparr>gel_id = 7, gel_color = ''blue'', gel_collapse = False, gel_mark = False,
              hdr_dragging = False, hdr_collapse = False, hdr_drop_zone = True,
              hdr_drag_over = False\<rparr>
             [\<lparr>el_id = 2, el_group = 7, el_active = False, el_pin = False,
              el_dragging = False, el_drop_zone = True, el_drag_over = False\<rparr>],
           FakeBottom,
           TabNode
             \<lparr>el_id = 9, el_group = - 1, el_active = False, el_pin = False,
              el_dragging = False, el_drop_zone = True, el_drag_over = False\<rparr>],
        WindowId = Some 1, dragging = True, fake_made = True, fake_drag_over = True,
        cache = Map.empty, timer = None, clock = 0\<rparr> =
   TabDropped
     \<lparr>mainList =
          [GroupNode
             \<lparr>gel_id = 7, gel_color = ''blue'', gel_collapse = False, gel_mark = False,
              hdr_dragging = False, hdr_collapse = False, hdr_drop_zone = True,
              hdr_drag_over = False\<rparr>
             [\<lparr>el_id = 2, el_group = 7, el_active = False, el_pin = False,
              el_dragging = False, el_drop_zone = True, el_drag_over = False\<rparr>],
           TabNode
             \<lparr>el_id = 1, el_group = - 1, el_active = False, el_pin = False,
              el_dragging = True, el_drop_zone = True, el_drag_over = False\<rparr>,
           FakeBottom,
           TabNode
             \<lparr>el_id = 9, el_group = - 1, el_active = False, el_pin = False,
              el_dragging = False, el_drop_zone = True, el_drag_over = False\<rparr>],
        WindowId = Some 1, dragging = True, fake_made = True, fake_drag_over = True,
        cache = Map.empty, timer = None, clock = 0\<rparr>
     [TabsMove 1 1, TabsUngroup [1], Build]"
proof -
  let ?s = "\<lparr>mainList =
          [TabNode
             \<lparr>el_id = 1, el_group = - 1, el_active = False, el_pin = False,
              el_dragging = True, el_drop_zone = True, el_drag_over = False\<rparr>,
           GroupNode
             \<lparr>gel_id = 7, gel_color = ''blue'', gel_collapse = False, gel_mark = False,
              hdr_dragging = False, hdr_collapse = False, hdr_drop_zone = True,
              hdr_drag_over = False\<rparr>
             [\<lparr>el_id = 2, el_group = 7, el_active = False, el_pin = False,
              el_dragging = False, el_drop_zone = True, el_drag_over = False\<rparr>],
           FakeBottom,
           TabNode
             \<lparr>el_id = 9, el_group = - 1, el_active = False, el_pin = False,
              el_dragging = False, el_drop_zone = True, el_drag_over = False\<rparr>],
        WindowId = Some 1, dragging = True, fake_made = True, fake_drag_over = True,
        cache = Map.empty, timer = None, clock = 0\<rparr>"
  let ?e = "\<lparr>el_id = 1, el_group = - 1, el_active = False, el_pin = False,
            el_dragging = True, el_drop_zone = True, el_drag_over = False\<rparr>"
  let ?rest = "[GroupNode
           \<lparr>gel_id = 7, gel_color = ''blue'', gel_collapse = False, gel_mark = False,
            hdr_dragging = False, hdr_collapse = False, hdr_drop_zone = True,
            hdr_drag_over = False\<rparr>
           [\<lparr>el_id = 2, el_group = 7, el_active = False, el_pin = False,
            el_dragging = False, el_drop_zone = True, el_drag_over = False\<rparr>],
         FakeBottom,
         TabNode
           \<lparr>el_id = 9, el_group = - 1, el_active = False, el_pin = False,
            el_dragging = False, el_drop_zone = True, el_drag_over = False\<rparr>]"
  have p: "locate_tab 1 (mainList ?s) = Some (Root 0)" by simp
  have q0: "locate OnFake (mainList ?s) = Some (Root 2)" by (simp add: locate_def)
  have ne: "Root 0 \<noteq> Root 2" by simp
  from tab_drop_moves_then_regroups_then_builds
    [OF p q0 ne, of "\<lambda>a. False" "\<lambda>g. None" 0]
  obtain e rest q ml i calls xs ys us vs where
    d: "detach 1 (mainList ?s) = Some (e, rest)" and
    q: "locate OnFake rest = Some q" and
    r: "DnD_drop (\<lambda>a. False) (\<lambda>g. None) 0 (DragTab 1) OnFake ?s =
       (if next_sibling (Root 0) (mainList ?s) = Some (Root 2) then Rejected
        else TabDropped (?s\<lparr>mainList := ml\<rparr>) (TabsMove 1 i # calls @ [Build]))" and
    uv: "flat rest = us @ vs" "flat ml = us @ e # vs" "i = int (length us)" and
    pl: "case q of
        Root k \<Rightarrow> k < length rest \<and> ml = take k rest @ TabNode e # drop k rest
      | Body k j \<Rightarrow>
          k < length rest \<and>
          (\<exists>g body. rest ! k = GroupNode g body \<and> j < length body \<and>
             ml = rest[k := GroupNode g (take j body @ e # drop j body)])" and
    c: "calls =
       (if (\<lambda>a. False) (TabsMove 1 i) then []
        else if (\<exists>g. OnFake = OnGroup g) \<or> (\<exists>k. q = Root (Suc k) \<and> is_group (ml ! k))
        then [TabsUngroup [1]]
        else (case q of
                Body k j \<Rightarrow>
                  if el_group (body_at k rest ! j) \<noteq> 0
                  then [TabsGroup (Some (el_group (body_at k rest ! j))) [1]] else []
              | Root k \<Rightarrow> []))"
    by blast
  from d have e: "e = ?e" and rest: "rest = ?rest" by simp_all
  from q rest have q': "q = Root 1" by (simp add: locate_def)
  from pl q' rest e have ml: "ml = [GroupNode
           \<lparr>gel_id = 7, gel_color = ''blue'', gel_collapse = False, gel_mark = False,
            hdr_dragging = False, hdr_collapse = False, hdr_drop_zone = True,
            hdr_drag_over = False\<rparr>
           [\<lparr>el_id = 2, el_group = 7, el_active = False, el_pin = False,
            el_dragging = False, el_drop_zone = True, el_drag_over = False\<rparr>],
         TabNode ?e,
         FakeBottom,
         TabNode
           \<lparr>el_id = 9, el_group = - 1, el_active = False, el_pin = False,
            el_dragging = False, el_drop_zone = True, el_drag_over = False\<rparr>]"
    by simp
  from uv rest e ml have i: "i = 1"
    by (auto simp: flat_def Cons_eq_append_conv append_eq_Cons_conv)
  from c q' ml have calls: "calls = [TabsUngroup [1]]" by simp
  from r ml i calls show ?thesis by (simp add: next_sibling_def)
qed

lemma issue_all: "\<forall>a \<in> set as. \<not> fails a \<Longrightarrow> issue fails as = as"
  by (induction as) simp_all

lemma moveGroup_trace:
  assumes "locate_group gid (mainList s) = Some (Root k)"
  shows "snd (moveGroup fails fetch n gid tg s) =
     (if drop_inside gid tg (mainList s) then [Build]
      else if target_index tg (mainList s) = - 1 \<or>
              first_tab_index (Root k) (mainList s) < target_index tg (mainList s)
      then issue fails
             (TabsUngroup (map el_id (body_at k (mainList s))) #
              map (\<lambda>t. TabsMove t
                     (if target_index tg (mainList s) = - 1 then - 1
                      else target_index tg (mainList s) - 1))
                (map el_id (body_at k (mainList s))) @
              TabsGroup None (map el_id (body_at k (mainList s))) #
              (case fst (Groups_get fetch (cache s) gid) of
                 Some g \<Rightarrow> [TabGroupsUpdate n (collapsed g) (color g) (title g)]
               | None \<Rightarrow> [])) @ [Build]
      else if target_index tg (mainList s) < first_tab_index (Root k) (mainList s)
      then [TabGroupsMove gid (target_index tg (mainList s)), Build]
      else [Build])"
proof -
  have ti: "target_index tg (mainList s) =
      (case tg of
         OnGroup g' \<Rightarrow>
           (case locate_group g' (mainList s) of
              Some q \<Rightarrow> first_tab_index q (mainList s) | None \<Rightarrow> - 1)
       | OnTab t \<Rightarrow>
           (case locate_tab t (mainList s) of
              Some q \<Rightarrow> flat_index q (mainList s) | None \<Rightarrow> - 1)
       | OnFake \<Rightarrow> - 1)"
    by (cases tg) (simp_all add: target_index_def newIndex_js_indexOf)
  have ins: "drop_inside gid tg (mainList s) =
      (case tg of
         OnTab t \<Rightarrow>
           (case locate_tab t (mainList s) of
              Some (Body i j) \<Rightarrow> Root k = Root i | _ \<Rightarrow> False)
       | _ \<Rightarrow> False)"
    using assms
    by (auto simp: drop_inside_def split: target.splits option.splits place.splits)
  show ?thesis
    unfolding moveGroup_def assms ti [symmetric] ins [symmetric] option.case place.case Let_def
    by (simp add: case_prod_unfold)
qed

text \<open>
  Claim C2, at inputs where it fails. In the scenario, G1 is dropped on its own first tab
  T2: the old and the new index are both 1, an equal position, and no call is made
  except \<^verbatim>\<open>Tabs.build()\<close>. And when G1 is dropped on the fake bottom and the host rejects
  the ungroup call, nothing is moved, regrouped or updated.
\<close>

theorem group_drop_equal_position_counterexample:
  "target_index (OnTab 2) (mainList scenario) = 1 \<and>
   first_tab_index (Root 1) (mainList scenario) = 1 \<and>
   calls_of (DnD_drop (\<lambda>a. False) (\<lambda>g. None) 99 (DragGroup 7) (OnTab 2) scenario) = [Build] \<and>
   calls_of (DnD_drop (\<lambda>a. a = TabsUngroup [2, 3]) (\<lambda>g. None) 99 (DragGroup 7) OnFake scenario) =
     [TabsUngroup [2, 3], Build]"
  by code_simp

text \<open>
  Claim C2, amended. A group drop is either rejected or handled by \<^verbatim>\<open>DnD.moveGroup\<close>. With
  the old index the flat index of the group's first tab and the new index that of the drop
  target (-1 when there is none): when the drop target is a tab of the dragged group,
  nothing is called but \<^verbatim>\<open>Tabs.build()\<close>; when the new index is -1 or greater than the old one,
  the calls are ungroup of all member tabs, a move of each to the target index (-1, or
  the new index less one) in order, a group call, and, if the group is known to the cache
  or the host, an update of the new group id with the collapsed, color and title of the
  original group, the sequence ending at the first call that fails; when the new index is
  less than the old one, a single group move to the new index; when they are equal,
  nothing. \<^verbatim>\<open>Tabs.build()\<close> is called last in every case. In particular a forward move in
  which no call fails, of a group the cache knows, ends with the update that carries the
  cached collapsed, color and title to the new group id.
\<close>

theorem group_drop_calls:
  assumes "locate_group gid (mainList s) = Some (Root k)"
  shows "(DnD_drop fails fetch n (DragGroup gid) tg s = Rejected \<or>
          DnD_drop fails fetch n (DragGroup gid) tg s =
            GroupDropped (fst (moveGroup fails fetch n gid tg s))
              (snd (moveGroup fails fetch n gid tg s))) \<and>
         snd (moveGroup fails fetch n gid tg s) =
           (if drop_inside gid tg (mainList s) then [Build]
            else if target_index tg (mainList s) = - 1 \<or>
                    first_tab_index (Root k) (mainList s) < target_index tg (mainList s)
            then issue fails
                   (TabsUngroup (map el_id (body_at k (mainList s))) #
                    map (\<lambda>t. TabsMove t
                           (if target_index tg (mainList s) = - 1 then - 1
                            else target_index tg (mainList s) - 1))
                      (map el_id (body_at k (mainList s))) @
                    TabsGroup None (map el_id (body_at k (mainList s))) #
                    (case fst (Groups_get fetch (cache s) gid) of
                       Some g \<Rightarrow> [TabGroupsUpdate n (collapsed g) (color g) (title g)]
                     | None \<Rightarrow> [])) @ [Build]
            else if target_index tg (mainList s) < first_tab_index (Root k) (mainList s)
            then [TabGroupsMove gid (target_index tg (mainList s)), Build]
            else [Build]) \<and>
         (\<not> drop_inside gid tg (mainList s) \<and>
          (target_index tg (mainList s) = - 1 \<or>
           first_tab_index (Root k) (mainList s) < target_index tg (mainList s)) \<and>
          (\<forall>a. \<not> fails a) \<and> cache s gid = Some g \<longrightarrow>
            snd (moveGroup fails fetch n gid tg s) =
              TabsUngroup (map el_id (body_at k (mainList s))) #
              map (\<lambda>t. TabsMove t
                     (if target_index tg (mainList s) = - 1 then - 1
                      else target_index tg (mainList s) - 1))
                (map el_id (body_at k (mainList s))) @
              [TabsGroup None (map el_id (body_at k (mainList s))),
               TabGroupsUpdate n (collapsed g) (color g) (title g), Build])"
proof -
  have d: "DnD_drop fails fetch n (DragGroup gid) tg s = Rejected \<or>
          DnD_drop fails fetch n (DragGroup gid) tg s =
            GroupDropped (fst (moveGroup fails fetch n gid tg s))
              (snd (moveGroup fails fetch n gid tg s))"
    by (simp add: DnD_drop_def split: option.splits prod.splits)
  note t = moveGroup_trace [OF assms, of fails fetch n tg]
  have f: "snd (moveGroup fails fetch n gid tg s) =
              TabsUngroup (map el_id (body_at k (mainList s))) #
              map (\<lambda>t. TabsMove t
                     (if target_index tg (mainList s) = - 1 then - 1
                      else target_index tg (mainList s) - 1))
                (map el_id (body_at k (mainList s))) @
              [TabsGroup None (map el_id (body_at k (mainList s))),
               TabGroupsUpdate n (collapsed g) (color g) (title g), Build]"
    if "\<not> drop_inside gid tg (mainList s)"
      and "target_index tg (mainList s) = - 1 \<or>
           first_tab_index (Root k) (mainList s) < target_index tg (mainList s)"
      and "\<forall>a. \<not> fails a" and "cache s gid = Some g"
  proof -
    have "fst (Groups_get fetch (cache s) gid) = Some g"
      using that(4) by (simp add: Groups_get_def)
    moreover have "issue fails as = as" for as
      using that(3) by (simp add: issue_all)
    ultimately show ?thesis using t that(1,2,3) by simp
  qed
  from d t f show ?thesis by blast
qed

theorem group_drop_calls_witness:
  "snd (moveGroup (\<lambda>a. False) (\<lambda>g. None) 99 7 OnFake scenario) =
     [TabsUngroup [2, 3], TabsMove 2 (- 1), TabsMove 3 (- 1), TabsGroup None [2, 3],
      TabGroupsUpdate 99 False ''blue'' ''work'', Build]"
proof -
  have loc: "locate_group 7 (mainList scenario) = Some (Root 1)"
    by code_simp
  have "snd (moveGroup (\<lambda>a. False) (\<lambda>g. None) 99 7 OnFake scenario) =
           (if drop_inside 7 OnFake (mainList scenario) then [Build]
            else if target_index OnFake (mainList scenario) = - 1 \<or>
                    first_tab_index (Root 1) (mainList scenario) <
                      target_index OnFake (mainList scenario)
            then issue (\<lambda>a. False)
                   (TabsUngroup (map el_id (body_at 1 (mainList scenario))) #
                    map (\<lambda>t. TabsMove t
                           (if target_index OnFake (mainList scenario) = - 1 then - 1
                            else target_index OnFake (mainList scenario) - 1))
                      (map el_id (body_at 1 (mainList scenario))) @
                    TabsGroup None (map el_id (body_at 1 (mainList scenario))) #
                    (case fst (Groups_get (\<lambda>g. None) (cache scenario) 7) of
                       Some g \<Rightarrow> [TabGroupsUpdate 99 (collapsed g) (color g) (title g)]
                     | None \<Rightarrow> [])) @ [Build]
            else if target_index OnFake (mainList scenario) <
                      first_tab_index (Root 1) (mainList scenario)
            then [TabGroupsMove 7 (target_index OnFake (mainList scenario)), Build]
            else [Build])"
    using group_drop_calls [OF loc, of "\<lambda>a. False" "\<lambda>g. None" 99 OnFake] by blast
  also have "\<dots> = [TabsUngroup [2, 3], TabsMove 2 (- 1), TabsMove 3 (- 1),
      TabsGroup None [2, 3], TabGroupsUpdate 99 False ''blue'' ''work'', Build]"
    by code_simp
  finally show ?thesis .
qed

end
